theory Spec2Isabelle
  imports Complex_Main "HOL-Library.Word"
begin

unbundle bit_operations_syntax

section \<open>JavaScript values\<close>

text \<open>
  The codec works on values of TypeScript type \<open>unknown\<close>. They are modelled by the
  datatype below. An object is the list of its own enumerable properties in the order in
  which \<open>Object.keys\<close> enumerates them, each name once; numbers are the finite ones.
\<close>

datatype json =
    JUndefined
  | JNull
  | JBool bool
  | JNum rat
  | JStr string
  | JArr "json list"
  | JObj "(string \<times> json) list"

text \<open>Truthiness, as used by \<open>!x\<close> and \<open>x || d\<close>.\<close>

fun truthy :: "json \<Rightarrow> bool" where
  "truthy JUndefined = False"
| "truthy JNull = False"
| "truthy (JBool b) = b"
| "truthy (JNum n) = (n \<noteq> 0)"
| "truthy (JStr s) = (s \<noteq> [])"
| "truthy (JArr xs) = True"
| "truthy (JObj kvs) = True"

text \<open>\<open>typeof v === 'object'\<close>, which also holds of \<open>null\<close>.\<close>

fun typeof_object :: "json \<Rightarrow> bool" where
  "typeof_object JNull = True"
| "typeof_object (JArr xs) = True"
| "typeof_object (JObj kvs) = True"
| "typeof_object v = False"

fun isArray :: "json \<Rightarrow> bool" where
  "isArray (JArr xs) = True"
| "isArray v = False"

text \<open>The guard \<open>!v || typeof v !== 'object'\<close> that the codec puts before every descent.\<close>

definition not_an_object :: "json \<Rightarrow> bool" where
  "not_an_object v = (\<not> truthy v \<or> \<not> typeof_object v)"

text \<open>Decimal rendering of an array index, the property name of an array element.\<close>

definition digit_char :: "nat \<Rightarrow> char" where
  "digit_char d = ''0123456789'' ! (d mod 10)"

fun index_key :: "nat \<Rightarrow> string" where
  "index_key n = (if n < 10 then [digit_char n] else index_key (n div 10) @ [digit_char n])"

declare index_key.simps [simp del]

text \<open>
  Property read \<open>v[k]\<close>. A missing property reads as \<open>undefined\<close>. The codec reads
  properties of primitives only under \<open>?.\<close> and only the names \<open>FullName\<close> and
  \<open>ListID\<close>, which no primitive has.
\<close>

fun get_prop :: "json \<Rightarrow> string \<Rightarrow> json" where
  "get_prop (JObj kvs) k = (case map_of kvs k of None \<Rightarrow> JUndefined | Some v \<Rightarrow> v)"
| "get_prop (JArr xs) k =
     (case find (\<lambda>i. index_key i = k) [0..<length xs] of
        Some i \<Rightarrow> xs ! i
      | None \<Rightarrow> if k = ''length'' then JNum (of_nat (length xs)) else JUndefined)"
| "get_prop v k = JUndefined"

text \<open>\<open>Object.keys\<close> of an object or an array.\<close>

fun object_keys :: "json \<Rightarrow> string list" where
  "object_keys (JObj kvs) = map fst kvs"
| "object_keys (JArr xs) = map index_key [0..<length xs]"
| "object_keys v = []"

definition startsWith :: "string \<Rightarrow> string \<Rightarrow> bool" where
  "startsWith s p = (take (length p) s = p)"

definition endsWith :: "string \<Rightarrow> string \<Rightarrow> bool" where
  "endsWith s p = (length p \<le> length s \<and> drop (length s - length p) s = p)"

text \<open>\<open>(v as string) || d\<close>: the cast is unchecked, so any truthy value passes.\<close>

definition or_default :: "json \<Rightarrow> string \<Rightarrow> json" where
  "or_default v d = (if truthy v then v else JStr d)"

text \<open>\<open>v?.k\<close>\<close>

definition opt_chain :: "json \<Rightarrow> string \<Rightarrow> json" where
  "opt_chain v k = (if v = JNull \<or> v = JUndefined then JUndefined else get_prop v k)"

section \<open>CloudEvent codec\<close>

text \<open>
  The metadata fields are read with unchecked casts, so a decoded field holds whatever
  value the wire object had under that name. The two optional fields are absent
  (\<open>None\<close>) when the source leaves them unset.
\<close>

record CloudEventMeta =
  specversion :: json
  id :: json
  source :: json
  type :: json
  time :: json
  datacontenttype :: "json option"
  dataschema :: "json option"

record QbxmlResponseAttributes =
  requestID :: json
  statusCode :: json
  statusMessage :: json
  statusSeverity :: json

record NameRef =
  FullName :: json
  ListID :: json

record TransactionDetails =
  IsPaid :: json
  OpenAmount :: json
  RefNumber :: json
  TimeCreated :: json
  TimeModified :: json
  TxnDate :: json
  TxnID :: json
  TxnNumber :: json
  TermsRef :: NameRef
  VendorRef :: NameRef

record CloudEvent = CloudEventMeta +
  data :: json

record DecodedCloudEvent =
  meta :: CloudEventMeta
  responseAttributes :: "QbxmlResponseAttributes option"
  transactionDetails :: "TransactionDetails option"

subsection \<open>Identifier generation\<close>

text \<open>
  The host supplies what \<open>encodeCloudEvent\<close> does not compute: \<open>randomUUID\<close> is the
  result of \<open>crypto.randomUUID()\<close> when that function exists and \<open>None\<close> when it
  does not; \<open>random i\<close> is the value of \<open>(Math.random() * 16) | 0\<close> at the \<open>i\<close>-th call,
  a number from 0 to 15; \<open>now\<close> is \<open>new Date().toISOString()\<close>.
\<close>

record host =
  randomUUID :: "string option"
  random :: "nat \<Rightarrow> 4 word"
  now :: string

text \<open>\<open>v.toString(16)\<close> for a value from 0 to 15.\<close>

definition toString16 :: "4 word \<Rightarrow> char" where
  "toString16 v = ''0123456789abcdef'' ! unat v"

text \<open>
  \<open>template.replace(/[xy]/g, f)\<close>: every \<open>x\<close> and \<open>y\<close> is replaced from left to right,
  each replacement drawing one random number; \<open>i\<close> counts the draws made so far.
\<close>

fun replace_xy :: "(nat \<Rightarrow> 4 word) \<Rightarrow> nat \<Rightarrow> string \<Rightarrow> string" where
  "replace_xy rnd i [] = []"
| "replace_xy rnd i (c # cs) =
     (if c = CHR ''x'' \<or> c = CHR ''y'' then
        (let r = rnd i;
             v = (if c = CHR ''x'' then r else (r AND 3) OR 8)
         in toString16 v # replace_xy rnd (Suc i) cs)
      else c # replace_xy rnd i cs)"

definition generateEventId :: "host \<Rightarrow> string" where
  "generateEventId h =
     (case randomUUID h of
        Some u \<Rightarrow> u
      | None \<Rightarrow> replace_xy (random h) 0 ''xxxxxxxx-xxxx-4xxx-yxxx-xxxxxxxxxxxx'')"

subsection \<open>Encoding\<close>

definition encodeCloudEvent :: "host \<Rightarrow> string \<Rightarrow> string \<Rightarrow> json \<Rightarrow> CloudEvent" where
  "encodeCloudEvent h type' source' data' =
     \<lparr> specversion = JStr ''1.0'',
       id = JStr (generateEventId h),
       source = JStr source',
       type = JStr type',
       time = JStr (now h),
       datacontenttype = Some (JStr ''application/json''),
       dataschema = None,
       data = data' \<rparr>"

text \<open>
  The event as the JavaScript object it is: the own properties of the object literal of
  \<open>encodeCloudEvent\<close>, in the order in which the literal lists them. An optional field
  that is unset is no property.
\<close>

definition optional_prop :: "string \<Rightarrow> json option \<Rightarrow> (string \<times> json) list" where
  "optional_prop k v = (case v of None \<Rightarrow> [] | Some x \<Rightarrow> [(k, x)])"

definition event_object :: "CloudEvent \<Rightarrow> json" where
  "event_object e =
     JObj ([(''specversion'', specversion e),
            (''id'', id e),
            (''source'', source e),
            (''type'', type e),
            (''time'', time e)]
           @ optional_prop ''datacontenttype'' (datacontenttype e)
           @ optional_prop ''dataschema'' (dataschema e)
           @ [(''data'', data e)])"

subsection \<open>Decoding\<close>

datatype decode_error =
    NotAnObject
  | MissingField string

definition extractResponseAttributes :: "json \<Rightarrow> QbxmlResponseAttributes option" where
  "extractResponseAttributes data' =
     (if not_an_object data' then None
      else let qbxml = get_prop data' ''QBXML'' in
      if not_an_object qbxml then None
      else let qbxmlMsgsRs = get_prop qbxml ''QBXMLMsgsRs'' in
      if not_an_object qbxmlMsgsRs then None
      else case find (\<lambda>key. \<not> startsWith key ''@'') (object_keys qbxmlMsgsRs) of
        None \<Rightarrow> None
      | Some responseKey \<Rightarrow>
          if responseKey = [] then None
          else let specificResponse = get_prop qbxmlMsgsRs responseKey in
          if not_an_object specificResponse then None
          else Some
            \<lparr> requestID =
                (if truthy (get_prop specificResponse ''@requestID'')
                 then get_prop specificResponse ''@requestID''
                 else or_default (get_prop qbxmlMsgsRs ''@requestID'') ''N/A''),
              statusCode = or_default (get_prop specificResponse ''@statusCode'') ''N/A'',
              statusMessage = or_default (get_prop specificResponse ''@statusMessage'') ''N/A'',
              statusSeverity = or_default (get_prop specificResponse ''@statusSeverity'') ''N/A'' \<rparr>)"

definition extractNameRef :: "json \<Rightarrow> NameRef" where
  "extractNameRef r =
     \<lparr> FullName = or_default (opt_chain r ''FullName'') [],
       ListID = or_default (opt_chain r ''ListID'') [] \<rparr>"

definition extractTransactionDetails :: "json \<Rightarrow> TransactionDetails option" where
  "extractTransactionDetails data' =
     (if not_an_object data' then None
      else let qbxml = get_prop data' ''QBXML'' in
      if not_an_object qbxml then None
      else let qbxmlMsgsRs = get_prop qbxml ''QBXMLMsgsRs'' in
      if not_an_object qbxmlMsgsRs then None
      else case find (\<lambda>key. \<not> startsWith key ''@'' \<and> typeof_object (get_prop qbxmlMsgsRs key))
                  (object_keys qbxmlMsgsRs) of
        None \<Rightarrow> None
      | Some txnResponseKey \<Rightarrow>
          if txnResponseKey = [] then None
          else let txnResponse = get_prop qbxmlMsgsRs txnResponseKey in
          if not_an_object txnResponse then None
          else case find (\<lambda>key. \<not> startsWith key ''@'' \<and> endsWith key ''Ret'')
                      (object_keys txnResponse) of
            None \<Rightarrow> None
          | Some retKey \<Rightarrow>
              let txnDetails0 = get_prop txnResponse retKey;
                  txnDetails =
                    (case txnDetails0 of
                       JArr (x # xs) \<Rightarrow> x
                     | _ \<Rightarrow> txnDetails0)
              in
              if not_an_object txnDetails \<or> isArray txnDetails then None
              else Some
                \<lparr> IsPaid = or_default (get_prop txnDetails ''IsPaid'') ''false'',
                  OpenAmount = or_default (get_prop txnDetails ''OpenAmount'') ''0.00'',
                  RefNumber = or_default (get_prop txnDetails ''RefNumber'') [],
                  TimeCreated = or_default (get_prop txnDetails ''TimeCreated'') [],
                  TimeModified = or_default (get_prop txnDetails ''TimeModified'') [],
                  TxnDate = or_default (get_prop txnDetails ''TxnDate'') [],
                  TxnID = or_default (get_prop txnDetails ''TxnID'') [],
                  TxnNumber = or_default (get_prop txnDetails ''TxnNumber'') [],
                  TermsRef = extractNameRef (get_prop txnDetails ''TermsRef''),
                  VendorRef = extractNameRef (get_prop txnDetails ''VendorRef'') \<rparr>)"

text \<open>The five required fields, in the order in which the loop checks them.\<close>

definition requiredFields :: "string list" where
  "requiredFields = [''specversion'', ''id'', ''source'', ''type'', ''time'']"

text \<open>The first required field that reads as \<open>undefined\<close>, if there is one.\<close>

definition first_missing :: "json \<Rightarrow> string option" where
  "first_missing payload = find (\<lambda>field. get_prop payload field = JUndefined) requiredFields"

definition optional_field :: "json \<Rightarrow> string \<Rightarrow> json option" where
  "optional_field payload k =
     (if get_prop payload k \<noteq> JUndefined then Some (get_prop payload k) else None)"

definition decodeCloudEvent :: "json \<Rightarrow> decode_error + DecodedCloudEvent" where
  "decodeCloudEvent rawPayload =
     (if not_an_object rawPayload then Inl NotAnObject
      else case first_missing rawPayload of
        Some field \<Rightarrow> Inl (MissingField field)
      | None \<Rightarrow>
          Inr \<lparr> meta =
                  \<lparr> specversion = get_prop rawPayload ''specversion'',
                    id = get_prop rawPayload ''id'',
                    source = get_prop rawPayload ''source'',
                    type = get_prop rawPayload ''type'',
                    time = get_prop rawPayload ''time'',
                    datacontenttype = optional_field rawPayload ''datacontenttype'',
                    dataschema = optional_field rawPayload ''dataschema'' \<rparr>,
                responseAttributes = extractResponseAttributes (get_prop rawPayload ''data''),
                transactionDetails = extractTransactionDetails (get_prop rawPayload ''data'') \<rparr>)"

section \<open>Network service\<close>

text \<open>
  What \<open>fetch\<close> can do to one attempt: reject with a thrown value, or resolve with a
  response. A thrown value is an \<open>Error\<close> instance with its \<open>name\<close> and \<open>message\<close>
  (a \<open>TypeError\<close> of a failed connection, the \<open>AbortError\<close> raised when the timeout
  controller aborts the request), or some other value, given by \<open>String(error)\<close>.
\<close>

datatype thrown =
    ErrorObject string string
  | NonError string

text \<open>
  A response as the code reads it: \<open>status\<close>, \<open>statusText\<close>, and what awaiting
  \<open>response.text()\<close> does: it yields the body (\<open>Inr\<close>) or rejects with a thrown value
  (\<open>Inl\<close>), as when the connection breaks while the body is read. \<open>response.ok\<close> is
  what the Fetch standard makes it: the status is in the range 200 to 299.
\<close>

record response =
  status :: nat
  statusText :: string
  text_body :: "thrown + string"

definition ok :: "response \<Rightarrow> bool" where
  "ok r = (200 \<le> status r \<and> status r \<le> 299)"

datatype fetch_outcome =
    Rejects thrown
  | Resolves response

text \<open>
  The five error classes with the fields they carry. The \<open>message\<close> of each is a
  rendering of the other fields and is left out. \<open>NetworkError\<close> has its cause, which is
  absent in the one that the end of \<open>postCloudEvent\<close> constructs.
\<close>

datatype parse_cause =
    JsonSyntax
  | DecodeFailure decode_error

datatype net_error =
    NetworkError "thrown option"
  | TimeoutError nat
  | HTTPError nat string string
  | QBError json json
  | ParseError parse_cause

record RequestOptions =
  timeout :: nat
  retries :: int

text \<open>The defaults of the destructuring assignment in \<open>postCloudEvent\<close>.\<close>

definition default_options :: RequestOptions where
  "default_options = \<lparr> timeout = 5000, retries = 3 \<rparr>"

record RetryState =
  attempt :: nat
  maxRetries :: int
  lastError :: "net_error option"

text \<open>
  The delay is computed in double precision. The values that occur are whole numbers,
  which a double holds exactly as long as they have the form \<open>m * 2 ^ e\<close> with \<open>m\<close>
  below \<open>2 ^ 53\<close> and stay below \<open>2 ^ 1024\<close>, and \<open>Infinity\<close>, which a result of
  \<open>2 ^ 1024\<close> or more becomes.
\<close>

datatype js_number = Finite nat | Infinity

text \<open>\<open>Math.pow(2, e)\<close> for a whole exponent that is not negative.\<close>

definition pow2 :: "nat \<Rightarrow> js_number" where
  "pow2 e = (if e \<le> 1023 then Finite (2 ^ e) else Infinity)"

text \<open>\<open>x * 1000\<close> for a power of two \<open>x\<close>.\<close>

fun times1000 :: "js_number \<Rightarrow> js_number" where
  "times1000 (Finite x) = (if x * 1000 < 2 ^ 1024 then Finite (x * 1000) else Infinity)"
| "times1000 Infinity = Infinity"

text \<open>
  The delay after a failed attempt, \<open>Math.pow(2, attempt - 1) * 1000\<close>. The loop calls it
  with the number of the attempt just made, which is at least 1; at 0 the power is one
  half and the delay 500.
\<close>

definition calculateBackoff :: "nat \<Rightarrow> js_number" where
  "calculateBackoff attempt' =
     (if attempt' = 0 then Finite 500 else times1000 (pow2 (attempt' - 1)))"

text \<open>
  Every error that reaches the outer handler of \<open>postCloudEvent\<close> comes out of the inner
  handler and is of one of the five classes; so the third disjunct of the source (a
  \<open>TypeError\<close> whose message mentions \<open>fetch\<close>) never decides.
\<close>

fun isRetryableError :: "net_error \<Rightarrow> bool" where
  "isRetryableError (NetworkError c) = True"
| "isRetryableError (TimeoutError ms) = True"
| "isRetryableError e = False"

text \<open>
  The inner handler on a value that \<open>fetch\<close> threw: an \<open>Error\<close> named \<open>AbortError\<close> is
  a timeout, anything else a network failure.
\<close>

fun classify_thrown :: "nat \<Rightarrow> thrown \<Rightarrow> net_error" where
  "classify_thrown timeout' (ErrorObject name message) =
     (if name = ''AbortError'' then TimeoutError timeout'
      else NetworkError (Some (ErrorObject name message)))"
| "classify_thrown timeout' (NonError s) = NetworkError (Some (NonError s))"

text \<open>
  One pass through the inner \<open>try\<close> block and its handler. \<open>parse\<close> is \<open>JSON.parse\<close>,
  \<open>None\<close> where it throws. A body read that rejects ends up in the handler like a
  rejection of \<open>fetch\<close>.
\<close>

definition attempt_once ::
  "(string \<Rightarrow> json option) \<Rightarrow> nat \<Rightarrow> fetch_outcome \<Rightarrow> net_error + DecodedCloudEvent" where
  "attempt_once parse timeout' outcome =
     (case outcome of
        Rejects e \<Rightarrow> Inl (classify_thrown timeout' e)
      | Resolves r \<Rightarrow>
          if \<not> ok r then
            (case text_body r of
               Inl e \<Rightarrow> Inl (classify_thrown timeout' e)
             | Inr responseBody \<Rightarrow> Inl (HTTPError (status r) (statusText r) responseBody))
          else case text_body r of
            Inl e \<Rightarrow> Inl (classify_thrown timeout' e)
          | Inr responseText \<Rightarrow>
              (case parse responseText of
                 None \<Rightarrow> Inl (ParseError JsonSyntax)
               | Some rawPayload \<Rightarrow>
                   (case decodeCloudEvent rawPayload of
                      Inl e \<Rightarrow> Inl (ParseError (DecodeFailure e))
                    | Inr decoded \<Rightarrow>
                        (case responseAttributes decoded of
                           Some ra \<Rightarrow>
                             if statusCode ra \<noteq> JStr ''0''
                             then Inl (QBError (statusCode ra) (statusSeverity ra))
                             else Inr decoded
                         | None \<Rightarrow> Inr decoded))))"

text \<open>
  What the caller can observe of a call besides its result: the transport calls, numbered
  by attempt, and the calls of \<open>sleep\<close>, each with the delay in milliseconds handed to it.
\<close>

datatype effect =
    Fetch nat
  | Sleep js_number

text \<open>
  The retry loop. \<open>fetch k\<close> is what the transport does at attempt \<open>k\<close>. The result is
  the value returned (\<open>Inr\<close>) or the error thrown (\<open>Inl\<close>), with the effects in order.
  The optional \<open>logger\<close> only receives messages and is left out.
\<close>

function retry_loop ::
  "(string \<Rightarrow> json option) \<Rightarrow> nat \<Rightarrow> (nat \<Rightarrow> fetch_outcome) \<Rightarrow> RetryState
     \<Rightarrow> (net_error + DecodedCloudEvent) \<times> effect list" where
  "retry_loop parse timeout' fetch retryState =
     (if int (attempt retryState) < maxRetries retryState then
        (let st = retryState \<lparr> attempt := attempt retryState + 1 \<rparr> in
         case attempt_once parse timeout' (fetch (attempt st)) of
           Inr decoded \<Rightarrow> (Inr decoded, [Fetch (attempt st)])
         | Inl error \<Rightarrow>
             (let st' = st \<lparr> lastError := Some error \<rparr> in
              if \<not> isRetryableError error then (Inl error, [Fetch (attempt st')])
              else if int (attempt st') \<ge> maxRetries st' then (Inl error, [Fetch (attempt st')])
              else
                (let delay = calculateBackoff (attempt st');
                     (result, effects) = retry_loop parse timeout' fetch st'
                 in (result, Fetch (attempt st') # Sleep delay # effects))))
      else
        (case lastError retryState of
           Some e \<Rightarrow> (Inl e, [])
         | None \<Rightarrow> (Inl (NetworkError None), [])))"
  by pat_completeness auto
termination
  by (relation "measure (\<lambda>(parse, timeout', fetch, st). nat (maxRetries st - int (attempt st)))")
    auto

declare retry_loop.simps [simp del]

definition postCloudEvent ::
  "(string \<Rightarrow> json option) \<Rightarrow> (nat \<Rightarrow> fetch_outcome) \<Rightarrow> RequestOptions
     \<Rightarrow> (net_error + DecodedCloudEvent) \<times> effect list" where
  "postCloudEvent parse fetch options =
     retry_loop parse (timeout options) fetch
       \<lparr> attempt = 0, maxRetries = retries options, lastError = None \<rparr>"

text \<open>The number of transport calls among the effects.\<close>

fun fetch_count :: "effect list \<Rightarrow> nat" where
  "fetch_count [] = 0"
| "fetch_count (Fetch k # es) = Suc (fetch_count es)"
| "fetch_count (Sleep ms # es) = fetch_count es"

text \<open>The delays handed to \<open>sleep\<close> among the effects, in order.\<close>

fun sleeps :: "effect list \<Rightarrow> js_number list" where
  "sleeps [] = []"
| "sleeps (Fetch k # es) = sleeps es"
| "sleeps (Sleep ms # es) = ms # sleeps es"

section \<open>Persistent store\<close>

text \<open>
  \<open>persistentStore\<close> builds on the \<open>writable\<close> store of \<open>svelte/store\<close>, whose
  contract is this: \<open>set v\<close> does nothing when \<open>safe_not_equal\<close> finds the old value
  and \<open>v\<close> equal; otherwise it stores \<open>v\<close> and calls every subscriber with it before it
  returns. \<open>subscribe f\<close> registers \<open>f\<close> and then calls it with the current value.
  The library's test is \<open>a != a ? b == b : a !== b || (a && typeof a === 'object') ||
  typeof a === 'function'\<close>; on the values modelled here it is the following.
\<close>

definition safe_not_equal :: "json \<Rightarrow> json \<Rightarrow> bool" where
  "safe_not_equal a b = (a \<noteq> b \<or> (truthy a \<and> typeof_object a))"

datatype StorageType = local | sync

text \<open>The area name under which \<open>chrome.storage.onChanged\<close> reports a storage area.\<close>

fun area_name :: "StorageType \<Rightarrow> string" where
  "area_name local = ''local''"
| "area_name sync = ''sync''"

text \<open>
  A cell is the store's value together with the variables that the three callbacks of
  \<open>persistentStore\<close> close over. \<open>attached\<close> tells whether \<open>chrome.storage\<close> existed
  at creation, so that the callbacks were installed at all. \<open>writes\<close> lists the calls
  of \<open>storage.set\<close> made so far, each with the key and the value written.
\<close>

record cell =
  key :: string
  storageType :: StorageType
  current :: json
  isInitializing :: bool
  attached :: bool
  writes :: "(string \<times> json) list"

text \<open>The subscriber that mirrors the store to Chrome storage.\<close>

definition sync_subscriber :: "json \<Rightarrow> cell \<Rightarrow> cell" where
  "sync_subscriber v c =
     (if isInitializing c then c
      else c \<lparr> writes := writes c @ [(key c, v)] \<rparr>)"

text \<open>\<open>store.set\<close> and \<open>store.update\<close> of the cell's store.\<close>

definition store_set :: "json \<Rightarrow> cell \<Rightarrow> cell" where
  "store_set v c =
     (if safe_not_equal (current c) v then
        (let c' = c \<lparr> current := v \<rparr> in
         if attached c' then sync_subscriber v c' else c')
      else c)"

definition store_update :: "(json \<Rightarrow> json) \<Rightarrow> cell \<Rightarrow> cell" where
  "store_update f c = store_set (f (current c)) c"

text \<open>
  Creation. With Chrome storage present the flag is raised, the read is started and the
  subscriber is registered, which calls it once with the initial value. Without it the
  plain store is returned and no callback exists.
\<close>

definition persistentStore :: "bool \<Rightarrow> string \<Rightarrow> json \<Rightarrow> StorageType \<Rightarrow> cell" where
  "persistentStore chrome_storage key' initialValue storageType' =
     (if \<not> chrome_storage then
        \<lparr> key = key', storageType = storageType', current = initialValue,
          isInitializing = False, attached = False, writes = [] \<rparr>
      else
        sync_subscriber initialValue
          \<lparr> key = key', storageType = storageType', current = initialValue,
            isInitializing = True, attached = True, writes = [] \<rparr>)"

text \<open>
  The continuation of \<open>storage.get([key])\<close>, run when the read completes; \<open>stored\<close> is
  \<open>result[key]\<close>, \<open>undefined\<close> when the storage has no record for the key.
\<close>

definition hydrate :: "json \<Rightarrow> cell \<Rightarrow> cell" where
  "hydrate stored c =
     (let c' = (if stored \<noteq> JUndefined then store_set stored c else c)
      in c' \<lparr> isInitializing := False \<rparr>)"

text \<open>
  The listener of \<open>chrome.storage.onChanged\<close>. \<open>changes\<close> maps each changed key to its
  old and new value.
\<close>

definition onChanged :: "(string \<rightharpoonup> json \<times> json) \<Rightarrow> string \<Rightarrow> cell \<Rightarrow> cell" where
  "onChanged changes areaName c =
     (if areaName \<noteq> area_name (storageType c) then c
      else case changes (key c) of
        None \<Rightarrow> c
      | Some (oldValue, newValue) \<Rightarrow>
          (store_set newValue (c \<lparr> isInitializing := True \<rparr>)) \<lparr> isInitializing := False \<rparr>)"

section \<open>Storage quota\<close>

definition QUOTA_LIMITS_local :: nat where
  "QUOTA_LIMITS_local = 5242880"

definition QUOTA_LIMITS_sync :: nat where
  "QUOTA_LIMITS_sync = 102400"

definition THRESHOLDS_ok :: rat where
  "THRESHOLDS_ok = 80"

definition THRESHOLDS_warning :: rat where
  "THRESHOLDS_warning = 90"

definition THRESHOLDS_critical :: rat where
  "THRESHOLDS_critical = 95"

datatype quota_status = Ok | Warning | Critical

text \<open>JavaScript numbers are modelled by the rationals: no rounding, no overflow.\<close>

record StorageQuota =
  bytesInUse :: nat
  quota :: nat
  percentUsed :: rat
  status :: quota_status

text \<open>
  What the host answers to \<open>chrome.storage.local.getBytesInUse()\<close>: there is no
  \<open>chrome.storage\<close>, the call rejects, or it yields a byte count.
\<close>

datatype storage_host =
    NoChrome
  | GetBytesInUseRejects
  | BytesInUse nat

datatype quota_error = HostError

definition checkStorageQuota :: "storage_host \<Rightarrow> quota_error + StorageQuota" where
  "checkStorageQuota h =
     (case h of
        NoChrome \<Rightarrow>
          Inr \<lparr> bytesInUse = 0, quota = QUOTA_LIMITS_local, percentUsed = 0, status = Ok \<rparr>
      | GetBytesInUseRejects \<Rightarrow> Inl HostError
      | BytesInUse bytesInUse' \<Rightarrow>
          (let quota' = QUOTA_LIMITS_local;
               percentUsed' = (of_nat bytesInUse' / of_nat quota') * 100;
               status' =
                 (if percentUsed' \<ge> THRESHOLDS_critical then Critical
                  else if percentUsed' \<ge> THRESHOLDS_warning then Warning
                  else Ok)
           in Inr \<lparr> bytesInUse = bytesInUse', quota = quota',
                    percentUsed = percentUsed', status = status' \<rparr>))"

subsection \<open>Cleanup\<close>

datatype bill_status = pending | paid | overdue

record Bill =
  id :: string
  vendorId :: string
  vendorName :: string
  amount :: rat
  dueDate :: string
  status :: bill_status
  account :: string
  description :: string
  createdAt :: rat
  updatedAt :: rat

text \<open>
  \<open>Math.ceil(quota.bytesInUse / sortedBills.length) || 500\<close>. With no bills the
  quotient is \<open>NaN\<close> for zero bytes, replaced by 500, and \<open>Infinity\<close> otherwise, for
  which \<open>None\<close> stands.
\<close>

definition avgBytesPerBill :: "nat \<Rightarrow> nat \<Rightarrow> rat option" where
  "avgBytesPerBill bytes n =
     (if n = 0 then (if bytes = 0 then Some 500 else None)
      else (let c = \<lceil>(of_nat bytes :: rat) / of_nat n\<rceil>
            in if c = 0 then Some 500 else Some (of_int c)))"

text \<open>\<open>Math.ceil(bytesToFree / avgBytesPerBill)\<close>; a division by \<open>Infinity\<close> gives zero.\<close>

definition ceil_div :: "rat \<Rightarrow> rat option \<Rightarrow> int" where
  "ceil_div bytesToFree avg = (case avg of None \<Rightarrow> 0 | Some a \<Rightarrow> \<lceil>bytesToFree / a\<rceil>)"

text \<open>The value that one run of the subscriber assigns to \<open>billsToRemove\<close>.\<close>

definition count_to_remove :: "StorageQuota \<Rightarrow> rat \<Rightarrow> Bill list \<Rightarrow> int" where
  "count_to_remove q bytesToFree bills =
     (let sortedBills = sort_key createdAt bills;
          minBillsToKeep = 10;
          maxBillsToRemove = max 0 (int (length sortedBills) - minBillsToKeep);
          avg = avgBytesPerBill (bytesInUse q) (length sortedBills)
      in min maxBillsToRemove (ceil_div bytesToFree avg))"

text \<open>
  The variables that the subscriber shares with the enclosing call: the contents of
  \<open>billCache\<close>, the variable \<open>billsToRemove\<close>, and the promise, which keeps the value
  of the first \<open>resolve\<close> and ignores every later one.
\<close>

record cleanup_state =
  billCache :: "Bill list"
  billsToRemove :: int
  promise :: "int option"

definition resolve :: "int \<Rightarrow> cleanup_state \<Rightarrow> cleanup_state" where
  "resolve n s = (case promise s of None \<Rightarrow> s \<lparr> promise := Some n \<rparr> | Some r \<Rightarrow> s)"

text \<open>
  \<open>billCache\<close> is a \<open>persistentStore\<close>, a \<open>writable\<close> store, and \<open>cleanupOldData\<close>
  calls \<open>billCache.set\<close> inside the function that it has just subscribed and has not
  yet unsubscribed. So the \<open>set\<close> calls that same function again, with the shortened
  list. The store delivers a notification raised while it is delivering another one
  after the running subscriber has returned; \<open>renotified\<close> is the subscriber called that
  way: it assigns \<open>billsToRemove\<close>, replaces the store's value when the count is positive,
  resolves, returns, and is then called with the value it has set.
\<close>

function renotified :: "StorageQuota \<Rightarrow> rat \<Rightarrow> Bill list \<Rightarrow> cleanup_state \<Rightarrow> cleanup_state" where
  "renotified q bytesToFree bills s =
     (let n = count_to_remove q bytesToFree bills;
          s1 = s \<lparr> billsToRemove := n \<rparr>
      in if n > 0 then
           (let billsToKeep = drop (nat n) (sort_key createdAt bills);
                s2 = s1 \<lparr> billCache := billsToKeep \<rparr>;
                s3 = resolve (billsToRemove s2) s2
            in renotified q bytesToFree billsToKeep s3)
         else resolve (billsToRemove s1) s1)"
  by pat_completeness auto
termination
proof (relation "measure (\<lambda>(q, bytesToFree, bills, s). length bills)")
  show "wf (measure (\<lambda>(q, bytesToFree, bills, s). length bills))"
    by simp
next
  fix q :: StorageQuota and bytesToFree :: rat and bills :: "Bill list"
    and s s1 s2 s3 :: cleanup_state and n :: int and billsToKeep :: "Bill list"
  assume n: "n = count_to_remove q bytesToFree bills" and pos: "0 < n"
    and keep: "billsToKeep = drop (nat n) (sort_key createdAt bills)"
  from n have "n \<le> max 0 (int (length bills) - 10)"
    by (simp add: count_to_remove_def Let_def)
  with pos have "0 < length bills"
    by auto
  with pos keep have "length billsToKeep < length bills"
    by auto
  then show "((q, bytesToFree, billsToKeep, s3), (q, bytesToFree, bills, s))
      \<in> measure (\<lambda>(q, bytesToFree, bills, s). length bills)"
    by simp
qed

declare renotified.simps [simp del]

text \<open>
  The subscriber as \<open>subscribe\<close> calls it. Its \<open>set\<close> finds no delivery under way and
  delivers at once, so the renewed calls run before \<open>set\<close> returns; the rest of the
  body then reads \<open>billsToRemove\<close> as those calls have left it.
\<close>

definition subscribed :: "StorageQuota \<Rightarrow> rat \<Rightarrow> Bill list \<Rightarrow> cleanup_state \<Rightarrow> cleanup_state" where
  "subscribed q bytesToFree bills s =
     (let n = count_to_remove q bytesToFree bills;
          s1 = s \<lparr> billsToRemove := n \<rparr>
      in if n > 0 then
           (let billsToKeep = drop (nat n) (sort_key createdAt bills);
                s2 = s1 \<lparr> billCache := billsToKeep \<rparr>;
                s3 = renotified q bytesToFree billsToKeep s2
            in resolve (billsToRemove s3) s3)
         else resolve (billsToRemove s1) s1)"

text \<open>
  \<open>cleanupOldData\<close>: the count with which the returned promise is fulfilled (\<open>None\<close>
  were it never fulfilled) and the contents of \<open>billCache\<close> afterwards.
\<close>

definition cleanupOldData ::
  "storage_host \<Rightarrow> rat \<Rightarrow> Bill list \<Rightarrow> quota_error + (int option \<times> Bill list)" where
  "cleanupOldData h targetPercentage bills =
     (case checkStorageQuota h of
        Inl e \<Rightarrow> Inl e
      | Inr q \<Rightarrow>
          if percentUsed q \<le> targetPercentage then Inr (Some 0, bills)
          else
            (let targetBytes = (targetPercentage / 100) * of_nat (quota q);
                 bytesToFree = of_nat (bytesInUse q) - targetBytes;
                 s = subscribed q bytesToFree bills
                       \<lparr> billCache = bills, billsToRemove = 0, promise = None \<rparr>
             in Inr (promise s, billCache s)))"

text \<open>
  The count that the subscriber would yield were it called once only: the formula of the
  body applied to the bills present at the call.
\<close>

definition single_pass_count :: "storage_host \<Rightarrow> rat \<Rightarrow> Bill list \<Rightarrow> int" where
  "single_pass_count h targetPercentage bills =
     (case checkStorageQuota h of
        Inl e \<Rightarrow> 0
      | Inr q \<Rightarrow>
          if percentUsed q \<le> targetPercentage then 0
          else count_to_remove q
                 (of_nat (bytesInUse q) - (targetPercentage / 100) * of_nat (quota q)) bills)"

section \<open>Vocabulary for the statements\<close>

text \<open>
  The response container of a payload: the value under \<open>QBXML.QBXMLMsgsRs\<close>, when each
  step of the descent finds an object. Both extractors begin with this descent.
\<close>

definition response_container :: "json \<Rightarrow> json option" where
  "response_container data' =
     (if not_an_object data' then None
      else if not_an_object (get_prop data' ''QBXML'') then None
      else if not_an_object (get_prop (get_prop data' ''QBXML'') ''QBXMLMsgsRs'') then None
      else Some (get_prop (get_prop data' ''QBXML'') ''QBXMLMsgsRs''))"


text \<open>
  A payload lacks the response structures when some step of the descent to the container
  finds no object, or when the container holds no object under a key other than an
  attribute, the keys that start with \<open>@\<close>. The empty key counts as no key: the code
  takes it for a search that found nothing.
\<close>

definition lacks_response :: "json \<Rightarrow> bool" where
  "lacks_response data' =
     (case response_container data' of
        None \<Rightarrow> True
      | Some msgs \<Rightarrow>
          list_all (\<lambda>k. startsWith k ''@'' \<or> k = [] \<or> not_an_object (get_prop msgs k))
            (object_keys msgs))"

text \<open>A keyed structure is an object with named properties.\<close>

fun keyed :: "json \<Rightarrow> bool" where
  "keyed (JObj kvs) = True"
| "keyed v = False"

text \<open>
  The pattern \<open>xxxxxxxx-xxxx-4xxx-yxxx-xxxxxxxxxxxx\<close> of an identifier, read as the
  tests of the codec read it: \<open>x\<close> is a hexadecimal digit, \<open>y\<close> one of \<open>8\<close>, \<open>9\<close>,
  \<open>a\<close>, \<open>b\<close>, and every other character stands for itself.
\<close>

definition hex_digit :: "char \<Rightarrow> bool" where
  "hex_digit c = (c \<in> set ''0123456789abcdef'')"

definition variant_digit :: "char \<Rightarrow> bool" where
  "variant_digit c = (c \<in> set ''89ab'')"

fun matches :: "string \<Rightarrow> string \<Rightarrow> bool" where
  "matches [] [] = True"
| "matches (p # ps) (c # cs) =
     ((if p = CHR ''x'' then hex_digit c
       else if p = CHR ''y'' then variant_digit c
       else c = p) \<and> matches ps cs)"
| "matches ps cs = False"

definition uuid_v4 :: "string \<Rightarrow> bool" where
  "uuid_v4 s = matches ''xxxxxxxx-xxxx-4xxx-yxxx-xxxxxxxxxxxx'' s"

text \<open>
  A host keeps the contract of \<open>crypto.randomUUID\<close> when the string it returns, if it
  returns one, is a version 4 identifier.
\<close>

definition host_ok :: "host \<Rightarrow> bool" where
  "host_ok h = (case randomUUID h of None \<Rightarrow> True | Some u \<Rightarrow> uuid_v4 u)"

text \<open>
  The effects of a call that fails and retries at every attempt after \<open>a\<close> and before
  \<open>k\<close>, and stops at attempt \<open>k\<close>.
\<close>

definition retry_trace :: "nat \<Rightarrow> nat \<Rightarrow> effect list" where
  "retry_trace a k =
     concat (map (\<lambda>j. [Fetch j, Sleep (calculateBackoff j)]) [Suc a..<k]) @ [Fetch k]"

section \<open>Sample inputs\<close>

text \<open>A host without \<open>crypto\<close> whose every random draw is 5, and one with \<open>crypto\<close>.\<close>

definition draw_five :: "nat \<Rightarrow> 4 word" where
  "draw_five i = 5"

definition plain_host :: host where
  "plain_host = \<lparr> randomUUID = None, random = draw_five, now = ''2025-01-01T00:00:00.000Z'' \<rparr>"

definition crypto_host :: host where
  "crypto_host =
     \<lparr> randomUUID = Some ''550e8400-e29b-41d4-a716-446655440000'', random = draw_five,
       now = ''2025-01-01T00:00:00.000Z'' \<rparr>"

text \<open>A bill created at the given time; only \<open>createdAt\<close> differs between two of them.\<close>

definition bill_at :: "nat \<Rightarrow> Bill" where
  "bill_at t =
     \<lparr> id = ''bill'', vendorId = ''v1'', vendorName = ''Acme Corp'', amount = 100,
       dueDate = ''2025-02-01'', status = pending, account = ''6000'', description = [],
       createdAt = of_nat t, updatedAt = of_nat t \<rparr>"

text \<open>The bills created at the times from \<open>a\<close> to 16, oldest first.\<close>

definition bills_from :: "nat \<Rightarrow> Bill list" where
  "bills_from a = map bill_at [a..<17]"

text \<open>The quota snapshot at four mebibytes in use, 80 percent of the limit.\<close>

definition q80 :: StorageQuota where
  "q80 = \<lparr> bytesInUse = 4194304, quota = 5242880, percentUsed = 80, status = Ok \<rparr>"

text \<open>A transport that rejects every attempt with the \<open>TypeError\<close> of a failed connection.\<close>

definition always_refused :: "nat \<Rightarrow> fetch_outcome" where
  "always_refused k = Rejects (ErrorObject ''TypeError'' ''Failed to fetch'')"

text \<open>A transport that answers every attempt with the given response.\<close>

definition always_answers :: "response \<Rightarrow> nat \<Rightarrow> fetch_outcome" where
  "always_answers r k = Resolves r"

text \<open>A parser that knows one body, for which it yields the given value.\<close>

definition parse_only :: "string \<Rightarrow> json \<Rightarrow> string \<Rightarrow> json option" where
  "parse_only body v s = (if s = body then Some v else None)"

text \<open>An event with the five required fields and the given payload.\<close>

definition event_with :: "json \<Rightarrow> json" where
  "event_with data' =
     JObj [(''specversion'', JStr ''1.0''),
           (''id'', JStr ''550e8400-e29b-41d4-a716-446655440000''),
           (''source'', JStr ''qb-backend''),
           (''type'', JStr ''com.quickbooks.bill.add.response''),
           (''time'', JStr ''2025-01-01T00:00:00.000Z''),
           (''data'', data')]"

text \<open>A payload whose response container holds an attribute and no response.\<close>

definition only_attributes :: json where
  "only_attributes =
     JObj [(''QBXML'', JObj [(''QBXMLMsgsRs'', JObj [(''@requestID'', JStr ''999'')])])]"



definition reply_404 :: response where
  "reply_404 =
     \<lparr> response.status = 404, statusText = ''Not Found'', text_body = Inr ''no such route'' \<rparr>"

text \<open>A response with status 404 whose body cannot be read.\<close>

definition broken_404 :: response where
  "broken_404 =
     \<lparr> response.status = 404, statusText = ''Not Found'',
       text_body = Inl (ErrorObject ''TypeError'' ''network error'') \<rparr>"

text \<open>A transport whose first attempt is refused and whose later attempts are answered.\<close>

definition refused_then :: "response \<Rightarrow> nat \<Rightarrow> fetch_outcome" where
  "refused_then r k =
     (if k = 1 then Rejects (ErrorObject ''TypeError'' ''Failed to fetch'') else Resolves r)"

section \<open>Properties of the codec\<close>

subsection \<open>Identifiers\<close>

lemma w4_cases: "(r::4 word) \<in> set (map of_nat [0..<16])"
proof -
  have "unat r < 2 ^ 4"
    using unsigned_less[of r] by simp
  then have "unat r \<in> set [0..<16]"
    by simp
  then have "of_nat (unat r) \<in> (of_nat :: nat \<Rightarrow> 4 word) ` set [0..<16]"
    by (rule imageI)
  then show ?thesis
    by simp
qed

lemma hex_toString16: "hex_digit (toString16 v)"
proof -
  have "unat v < 2 ^ 4"
    using unsigned_less[of v] by simp
  then have "unat v < length ''0123456789abcdef''"
    by simp
  then show ?thesis
    unfolding hex_digit_def toString16_def by (rule nth_mem)
qed

lemma variant_toString16: "variant_digit (toString16 ((r AND 3) OR 8))"
  using w4_cases[of r] by (auto simp: upt_rec variant_digit_def toString16_def)

lemma matches_replace_xy: "matches ps (replace_xy rnd i ps)"
  by (induction ps arbitrary: i) (simp_all add: Let_def hex_toString16 variant_toString16)

lemma matches_length: "matches ps cs \<Longrightarrow> length cs = length ps"
  by (induction ps cs rule: matches.induct) simp_all

lemma matches_nth:
  "matches ps cs \<Longrightarrow> i < length ps \<Longrightarrow>
     (if ps ! i = CHR ''x'' then hex_digit (cs ! i)
      else if ps ! i = CHR ''y'' then variant_digit (cs ! i)
      else cs ! i = ps ! i)"
proof (induction ps cs arbitrary: i rule: matches.induct)
  case (2 p ps c cs)
  then show ?case
    by (cases i) simp_all
qed simp_all

lemma generated_uuid:
  assumes "host_ok h"
  shows "uuid_v4 (generateEventId h)"
proof (cases "randomUUID h")
  case None
  then have "generateEventId h = replace_xy (random h) 0 ''xxxxxxxx-xxxx-4xxx-yxxx-xxxxxxxxxxxx''"
    by (simp add: generateEventId_def)
  then show ?thesis
    unfolding uuid_v4_def by (simp only: matches_replace_xy)
next
  case (Some u)
  then show ?thesis
    using assms by (simp add: host_ok_def generateEventId_def)
qed

lemma uuid_shape:
  assumes "uuid_v4 u"
  shows "length u = 36 \<and> u ! 14 = CHR ''4'' \<and> variant_digit (u ! 19)"
proof -
  let ?t = "''xxxxxxxx-xxxx-4xxx-yxxx-xxxxxxxxxxxx''"
  from assms have m: "matches ?t u"
    by (simp add: uuid_v4_def)
  have "length u = 36"
    using matches_length[OF m] by simp
  moreover have "u ! 14 = CHR ''4''"
    using matches_nth[OF m, of 14] by simp
  moreover have "variant_digit (u ! 19)"
    using matches_nth[OF m, of 19] by simp
  ultimately show ?thesis
    by simp
qed

subsection \<open>Decoding an encoded event\<close>

lemma decode_event_object:
  "decodeCloudEvent (event_object (encodeCloudEvent h t s p)) =
     Inr \<lparr> meta = \<lparr> specversion = JStr ''1.0'', id = JStr (generateEventId h),
                     source = JStr s, type = JStr t, time = JStr (now h),
                     datacontenttype = Some (JStr ''application/json''), dataschema = None \<rparr>,
           responseAttributes = extractResponseAttributes p,
           transactionDetails = extractTransactionDetails p \<rparr>"
  by (simp add: decodeCloudEvent_def event_object_def encodeCloudEvent_def optional_prop_def
      not_an_object_def first_missing_def requiredFields_def optional_field_def)

text \<open>
  Claim C1, as the code has it. Decoding the object that \<open>encodeCloudEvent\<close> builds
  succeeds for every type, source and payload. The metadata of the result has the type
  and the source given, and an identifier of the fixed pattern: 36 characters, the
  version digit 4 at position 14, the variant digit one of 8, 9, a, b at position 19.
  The result does not hold the payload: it holds the response attributes and the
  transaction details that the two extractors find in it.
\<close>

theorem decode_encode_metadata:
  assumes "host_ok h"
  shows "\<exists>d u. decodeCloudEvent (event_object (encodeCloudEvent h t s p)) = Inr d
           \<and> type (meta d) = JStr t
           \<and> source (meta d) = JStr s
           \<and> CloudEventMeta.id (meta d) = JStr u
           \<and> uuid_v4 u \<and> length u = 36 \<and> u ! 14 = CHR ''4'' \<and> variant_digit (u ! 19)
           \<and> responseAttributes d = extractResponseAttributes p
           \<and> transactionDetails d = extractTransactionDetails p"
proof -
  have "uuid_v4 (generateEventId h)"
    using assms by (rule generated_uuid)
  then show ?thesis
    using uuid_shape[of "generateEventId h"] by (simp add: decode_event_object)
qed

theorem decode_encode_metadata_witness:
  "host_ok plain_host \<and>
   (\<exists>d u. decodeCloudEvent (event_object (encodeCloudEvent plain_host ''com.quickbooks.bill.add''
              ''qb-chrome-extension'' (JStr ''payload''))) = Inr d
           \<and> type (meta d) = JStr ''com.quickbooks.bill.add''
           \<and> source (meta d) = JStr ''qb-chrome-extension''
           \<and> CloudEventMeta.id (meta d) = JStr u
           \<and> uuid_v4 u \<and> length u = 36 \<and> u ! 14 = CHR ''4'' \<and> variant_digit (u ! 19)
           \<and> responseAttributes d = None
           \<and> transactionDetails d = None)"
proof -
  have h: "host_ok plain_host"
    by (simp add: host_ok_def plain_host_def)
  have a: "extractResponseAttributes (JStr ''payload'') = None"
    by (simp add: extractResponseAttributes_def not_an_object_def)
  have b: "extractTransactionDetails (JStr ''payload'') = None"
    by (simp add: extractTransactionDetails_def not_an_object_def)
  show ?thesis
    using h decode_encode_metadata[OF h, of "''com.quickbooks.bill.add''"
        "''qb-chrome-extension''" "JStr ''payload''"]
    by (simp only: a b)
qed

text \<open>
  Against claim C1 as stated: two events that differ in their payload only decode to the
  same result, so the payload cannot be recovered from it.
\<close>

theorem decode_encode_payload_counterexample:
  "decodeCloudEvent (event_object (encodeCloudEvent crypto_host ''t'' ''s'' (JStr ''a'')))
     = decodeCloudEvent (event_object (encodeCloudEvent crypto_host ''t'' ''s'' (JStr ''b'')))
   \<and> JStr ''a'' \<noteq> JStr ''b''"
  by (simp add: decode_event_object extractResponseAttributes_def extractTransactionDetails_def
      not_an_object_def)

subsection \<open>Rejected and tolerated input\<close>

lemma digit_char_in: "digit_char n \<in> set ''0123456789''"
proof -
  have "n mod 10 < length ''0123456789''"
    by simp
  then show ?thesis
    unfolding digit_char_def by (rule nth_mem)
qed

lemma last_index_key: "last (index_key n) = digit_char n"
  by (subst index_key.simps) simp

lemma index_key_not_name:
  assumes "k \<noteq> []" "last k \<notin> set ''0123456789''"
  shows "index_key n \<noteq> k"
  using assms last_index_key[of n] digit_char_in[of n] by metis

lemma array_no_specversion: "get_prop (JArr xs) ''specversion'' = JUndefined"
proof -
  have "find (\<lambda>i. index_key i = ''specversion'') [0..<length xs] = None"
    using index_key_not_name[of "''specversion''"] by (simp add: find_None_iff)
  then show ?thesis
    by simp
qed

lemma unkeyed_rejected: "\<not> keyed raw \<Longrightarrow> \<exists>e. decodeCloudEvent raw = Inl e"
proof (cases raw)
  case (JArr xs)
  have "first_missing raw = Some ''specversion''"
    using array_no_specversion[of xs] JArr by (simp add: first_missing_def requiredFields_def)
  then show ?thesis
    by (simp add: decodeCloudEvent_def)
qed (auto simp: decodeCloudEvent_def not_an_object_def)

lemma missing_rejected:
  assumes "f \<in> set requiredFields" "get_prop raw f = JUndefined"
  shows "\<exists>e. decodeCloudEvent raw = Inl e"
proof -
  have "first_missing raw \<noteq> None"
    using assms by (auto simp: first_missing_def find_None_iff)
  then show ?thesis
    by (auto simp: decodeCloudEvent_def)
qed

lemma no_container_attrs: "response_container d = None \<Longrightarrow> extractResponseAttributes d = None"
  by (simp add: response_container_def extractResponseAttributes_def Let_def split: if_splits)

lemma no_container_details: "response_container d = None \<Longrightarrow> extractTransactionDetails d = None"
  by (simp add: response_container_def extractTransactionDetails_def Let_def split: if_splits)

lemma container_attrs:
  assumes "response_container d = Some msgs"
  shows "extractResponseAttributes d =
     (case find (\<lambda>key. \<not> startsWith key ''@'') (object_keys msgs) of
        None \<Rightarrow> None
      | Some responseKey \<Rightarrow>
          if responseKey = [] \<or> not_an_object (get_prop msgs responseKey) then None
          else Some
            \<lparr> requestID =
                (if truthy (get_prop (get_prop msgs responseKey) ''@requestID'')
                 then get_prop (get_prop msgs responseKey) ''@requestID''
                 else or_default (get_prop msgs ''@requestID'') ''N/A''),
              statusCode = or_default (get_prop (get_prop msgs responseKey) ''@statusCode'') ''N/A'',
              statusMessage =
                or_default (get_prop (get_prop msgs responseKey) ''@statusMessage'') ''N/A'',
              statusSeverity =
                or_default (get_prop (get_prop msgs responseKey) ''@statusSeverity'') ''N/A'' \<rparr>)"
  using assms
  by (auto simp: response_container_def extractResponseAttributes_def Let_def
      split: if_splits option.splits)

lemma no_response_attrs:
  assumes "lacks_response d"
  shows "extractResponseAttributes d = None"
proof (cases "response_container d")
  case None
  then show ?thesis
    by (rule no_container_attrs)
next
  case (Some msgs)
  with assms have all: "\<forall>k \<in> set (object_keys msgs).
      startsWith k ''@'' \<or> k = [] \<or> not_an_object (get_prop msgs k)"
    by (simp add: lacks_response_def list_all_iff)
  show ?thesis
  proof (cases "find (\<lambda>key. \<not> startsWith key ''@'') (object_keys msgs)")
    case None
    then show ?thesis
      by (simp add: container_attrs[OF Some])
  next
    case (Some k)
    then have "k \<in> set (object_keys msgs)" "\<not> startsWith k ''@''"
      by (auto simp: find_Some_iff)
    with all have "k = [] \<or> not_an_object (get_prop msgs k)"
      by blast
    with Some show ?thesis
      by (simp add: container_attrs[OF \<open>response_container d = Some msgs\<close>])
  qed
qed

lemma no_response_details:
  assumes "lacks_response d"
  shows "extractTransactionDetails d = None"
proof (cases "response_container d")
  case None
  then show ?thesis
    by (rule no_container_details)
next
  case (Some msgs)
  with assms have all: "\<forall>k \<in> set (object_keys msgs).
      startsWith k ''@'' \<or> k = [] \<or> not_an_object (get_prop msgs k)"
    by (simp add: lacks_response_def list_all_iff)
  from Some have c: "\<not> not_an_object d" "\<not> not_an_object (get_prop d ''QBXML'')"
      "\<not> not_an_object (get_prop (get_prop d ''QBXML'') ''QBXMLMsgsRs'')"
      "msgs = get_prop (get_prop d ''QBXML'') ''QBXMLMsgsRs''"
    by (auto simp: response_container_def split: if_splits)
  show ?thesis
  proof (cases "find (\<lambda>key. \<not> startsWith key ''@'' \<and> typeof_object (get_prop msgs key))
      (object_keys msgs)")
    case None
    then show ?thesis
      using c by (simp add: extractTransactionDetails_def Let_def)
  next
    case (Some k)
    then have "k \<in> set (object_keys msgs)" "\<not> startsWith k ''@''"
      by (auto simp: find_Some_iff)
    with all have "k = [] \<or> not_an_object (get_prop msgs k)"
      by blast
    with Some show ?thesis
      using c by (auto simp: extractTransactionDetails_def Let_def)
  qed
qed

lemma decode_present:
  assumes "keyed raw" "\<forall>f \<in> set requiredFields. get_prop raw f \<noteq> JUndefined"
  shows "\<exists>d. decodeCloudEvent raw = Inr d
           \<and> responseAttributes d = extractResponseAttributes (get_prop raw ''data'')
           \<and> transactionDetails d = extractTransactionDetails (get_prop raw ''data'')"
proof -
  from assms(1) have "\<not> not_an_object raw"
    by (cases raw) (simp_all add: not_an_object_def)
  moreover from assms(2) have "first_missing raw = None"
    by (simp add: first_missing_def find_None_iff)
  ultimately show ?thesis
    by (simp add: decodeCloudEvent_def)
qed

text \<open>
  Claim C2. \<open>decodeCloudEvent\<close> throws when its argument is not a keyed structure, and
  when one of the five required fields reads as \<open>undefined\<close>. When the argument is a
  keyed structure with all five fields and its \<open>data\<close> lacks the response structures,
  at whatever level of the descent, the call succeeds with \<open>responseAttributes\<close> and
  \<open>transactionDetails\<close> both null.
\<close>

theorem decode_rejects_and_tolerates:
  "(\<not> keyed raw \<longrightarrow> (\<exists>e. decodeCloudEvent raw = Inl e))
   \<and> (\<forall>f \<in> set requiredFields. get_prop raw f = JUndefined \<longrightarrow> (\<exists>e. decodeCloudEvent raw = Inl e))
   \<and> (keyed raw \<and> (\<forall>f \<in> set requiredFields. get_prop raw f \<noteq> JUndefined)
        \<and> lacks_response (get_prop raw ''data'')
      \<longrightarrow> (\<exists>d. decodeCloudEvent raw = Inr d
             \<and> responseAttributes d = None \<and> transactionDetails d = None))"
proof (intro conjI impI ballI)
  assume "\<not> keyed raw"
  then show "\<exists>e. decodeCloudEvent raw = Inl e"
    by (rule unkeyed_rejected)
next
  fix f
  assume "f \<in> set requiredFields" "get_prop raw f = JUndefined"
  then show "\<exists>e. decodeCloudEvent raw = Inl e"
    by (rule missing_rejected)
next
  assume a: "keyed raw \<and> (\<forall>f \<in> set requiredFields. get_prop raw f \<noteq> JUndefined)
        \<and> lacks_response (get_prop raw ''data'')"
  then obtain d where "decodeCloudEvent raw = Inr d"
    "responseAttributes d = extractResponseAttributes (get_prop raw ''data'')"
    "transactionDetails d = extractTransactionDetails (get_prop raw ''data'')"
    using decode_present[of raw] by blast
  with a show "\<exists>d. decodeCloudEvent raw = Inr d
             \<and> responseAttributes d = None \<and> transactionDetails d = None"
    by (simp add: no_response_attrs no_response_details)
qed

theorem decode_rejects_and_tolerates_witness:
  "\<not> keyed (JStr ''pong'')
   \<and> (\<exists>e. decodeCloudEvent (JStr ''pong'') = Inl e)
   \<and> ''time'' \<in> set requiredFields
   \<and> get_prop (JObj [(''specversion'', JStr ''1.0''), (''id'', JStr ''1''),
                     (''source'', JStr ''s''), (''type'', JStr ''t'')]) ''time'' = JUndefined
   \<and> (\<exists>e. decodeCloudEvent (JObj [(''specversion'', JStr ''1.0''), (''id'', JStr ''1''),
                     (''source'', JStr ''s''), (''type'', JStr ''t'')]) = Inl e)
   \<and> keyed (event_with JNull)
   \<and> list_all (\<lambda>f. get_prop (event_with JNull) f \<noteq> JUndefined) requiredFields
   \<and> lacks_response JNull
   \<and> (\<exists>d. decodeCloudEvent (event_with JNull) = Inr d
          \<and> responseAttributes d = None \<and> transactionDetails d = None)
   \<and> keyed (event_with only_attributes)
   \<and> list_all (\<lambda>f. get_prop (event_with only_attributes) f \<noteq> JUndefined) requiredFields
   \<and> response_container only_attributes = Some (JObj [(''@requestID'', JStr ''999'')])
   \<and> lacks_response only_attributes
   \<and> (\<exists>d. decodeCloudEvent (event_with only_attributes) = Inr d
          \<and> responseAttributes d = None \<and> transactionDetails d = None)"
proof -
  have fields: "list_all (\<lambda>f. get_prop (event_with v) f \<noteq> JUndefined) requiredFields"
      "\<forall>f \<in> set requiredFields. get_prop (event_with v) f \<noteq> JUndefined"
      "keyed (event_with v)" "get_prop (event_with v) ''data'' = v" for v
    by (simp_all add: event_with_def requiredFields_def)
  have container: "response_container only_attributes = Some (JObj [(''@requestID'', JStr ''999'')])"
    by (simp add: response_container_def only_attributes_def not_an_object_def)
  have lacks: "lacks_response JNull" "lacks_response only_attributes"
    by (simp_all add: lacks_response_def container startsWith_def)
       (simp add: response_container_def not_an_object_def)
  show ?thesis
    using fields container lacks
      decode_rejects_and_tolerates[of "JStr ''pong''"]
      decode_rejects_and_tolerates[of "JObj [(''specversion'', JStr ''1.0''), (''id'', JStr ''1''),
                     (''source'', JStr ''s''), (''type'', JStr ''t'')]"]
      decode_rejects_and_tolerates[of "event_with JNull"]
      decode_rejects_and_tolerates[of "event_with only_attributes"]
    by (simp add: requiredFields_def)
qed

section \<open>Properties of the network service\<close>

lemma retry_trace_last: "retry_trace a (Suc a) = [Fetch (Suc a)]"
  by (simp add: retry_trace_def)

lemma retry_trace_step:
  "Suc a < k \<Longrightarrow> retry_trace a k = Fetch (Suc a) # Sleep (calculateBackoff (Suc a)) # retry_trace (Suc a) k"
  by (simp add: retry_trace_def upt_conv_Cons)

lemma fetch_count_retry_trace: "a < k \<Longrightarrow> fetch_count (retry_trace a k) = k - a"
proof (induction "k - Suc a" arbitrary: a)
  case 0
  then have "k = Suc a" by simp
  then show ?case by (simp add: retry_trace_last)
next
  case (Suc n)
  then have "Suc a < k" "n = k - Suc (Suc a)" by simp_all
  then show ?case using Suc.hyps(1)[of "Suc a"] by (simp add: retry_trace_step)
qed

lemma sleeps_retry_trace: "a < k \<Longrightarrow> sleeps (retry_trace a k) = map calculateBackoff [Suc a..<k]"
proof (induction "k - Suc a" arbitrary: a)
  case 0
  then have "k = Suc a" by simp
  then show ?case by (simp add: retry_trace_last)
next
  case (Suc n)
  then have "Suc a < k" "n = k - Suc (Suc a)" by simp_all
  then show ?case using Suc.hyps(1)[of "Suc a"] by (simp add: retry_trace_step upt_conv_Cons)
qed

lemma retry_loop_stops:
  assumes "attempt st < k" "int k \<le> maxRetries st"
    and "\<forall>j. attempt st < j \<and> j < k \<longrightarrow>
           (\<exists>e. attempt_once parse t (fetch j) = Inl e \<and> isRetryableError e)"
    and "case attempt_once parse t (fetch k) of
           Inr d \<Rightarrow> True
         | Inl e \<Rightarrow> \<not> isRetryableError e \<or> maxRetries st \<le> int k"
  shows "retry_loop parse t fetch st = (attempt_once parse t (fetch k), retry_trace (attempt st) k)"
  using assms
proof (induction "k - Suc (attempt st)" arbitrary: st)
  case 0
  then have k: "k = Suc (attempt st)" by simp
  with 0 show ?case
    by (subst retry_loop.simps) (auto simp: retry_trace_last Let_def split: sum.splits)
next
  case (Suc n)
  then have lt: "Suc (attempt st) < k" by simp
  with Suc.prems obtain e where e: "attempt_once parse t (fetch (Suc (attempt st))) = Inl e"
      "isRetryableError e" by auto
  let ?st = "st \<lparr> attempt := Suc (attempt st), lastError := Some e \<rparr>"
  have "retry_loop parse t fetch ?st = (attempt_once parse t (fetch k), retry_trace (attempt ?st) k)"
  proof (rule Suc.hyps(1))
    show "n = k - Suc (attempt ?st)" using Suc.hyps(2) by simp
    show "attempt ?st < k" using lt by simp
    show "int k \<le> maxRetries ?st" using Suc.prems(2) by simp
    show "\<forall>j. attempt ?st < j \<and> j < k \<longrightarrow>
           (\<exists>e. attempt_once parse t (fetch j) = Inl e \<and> isRetryableError e)"
      using Suc.prems(3) by simp
    show "case attempt_once parse t (fetch k) of
           Inr d \<Rightarrow> True
         | Inl e \<Rightarrow> \<not> isRetryableError e \<or> maxRetries ?st \<le> int k"
      using Suc.prems(4) by (simp split: sum.splits)
  qed
  moreover have "int (attempt st) < maxRetries st" "\<not> maxRetries st \<le> int (Suc (attempt st))"
    using lt Suc.prems(2) by simp_all
  ultimately show ?case
    using e lt by (subst retry_loop.simps) (simp add: retry_trace_step Let_def)
qed

lemma post_stops:
  assumes "1 \<le> k" "int k \<le> retries options"
    and "\<forall>j. 1 \<le> j \<and> j < k \<longrightarrow>
           (\<exists>e. attempt_once parse (timeout options) (fetch j) = Inl e \<and> isRetryableError e)"
    and "case attempt_once parse (timeout options) (fetch k) of
           Inr d \<Rightarrow> True
         | Inl e \<Rightarrow> \<not> isRetryableError e \<or> retries options \<le> int k"
  shows "postCloudEvent parse fetch options =
           (attempt_once parse (timeout options) (fetch k), retry_trace 0 k)"
proof -
  let ?st = "\<lparr> attempt = 0, maxRetries = retries options, lastError = None \<rparr>"
  have "retry_loop parse (timeout options) fetch ?st =
          (attempt_once parse (timeout options) (fetch k), retry_trace (attempt ?st) k)"
  proof (rule retry_loop_stops)
    show "attempt ?st < k" using assms(1) by simp
    show "int k \<le> maxRetries ?st" using assms(2) by simp
    show "\<forall>j. attempt ?st < j \<and> j < k \<longrightarrow>
           (\<exists>e. attempt_once parse (timeout options) (fetch j) = Inl e \<and> isRetryableError e)"
      using assms(3) by (simp add: Suc_le_eq)
    show "case attempt_once parse (timeout options) (fetch k) of
           Inr d \<Rightarrow> True
         | Inl e \<Rightarrow> \<not> isRetryableError e \<or> maxRetries ?st \<le> int k"
      using assms(4) by (simp split: sum.splits)
  qed
  then show ?thesis by (simp add: postCloudEvent_def)
qed

lemma post_first_attempt:
  assumes "1 \<le> retries options"
    and "attempt_once parse (timeout options) (fetch 1) = Inl e" "\<not> isRetryableError e"
  shows "postCloudEvent parse fetch options = (Inl e, [Fetch 1])"
  using post_stops[of 1 options parse fetch] assms by (simp add: retry_trace_def)

lemma classify_retryable: "isRetryableError (classify_thrown t c)"
  by (cases c) simp_all

lemma classify_cases:
  "classify_thrown t c = NetworkError (Some c) \<or> classify_thrown t c = TimeoutError t"
  by (cases c) simp_all

subsection \<open>Delays\<close>

lemma calculateBackoff_exact:
  assumes "1 \<le> k" "k \<le> 1015"
  shows "calculateBackoff k = Finite (2 ^ (k - 1) * 1000)"
proof -
  have "(2::nat) ^ (k - 1) \<le> 2 ^ 1014"
    using assms by (intro power_increasing) simp_all
  then have "(2::nat) ^ (k - 1) * 1000 \<le> 2 ^ 1014 * 1000"
    by simp
  also have "(2::nat) ^ 1014 * 1000 < 2 ^ 1014 * 2 ^ 10"
    by simp
  also have "(2::nat) ^ 1014 * 2 ^ 10 = 2 ^ 1024"
    by (simp flip: power_add)
  finally have "(2::nat) ^ (k - 1) * 1000 < 2 ^ 1024" .
  then show ?thesis
    using assms by (simp add: calculateBackoff_def pow2_def)
qed

lemma calculateBackoff_overflow:
  assumes "1016 \<le> k"
  shows "calculateBackoff k = Infinity"
proof (cases "k - 1 \<le> 1023")
  case True
  have "(2::nat) ^ 1024 = 2 ^ 1015 * 2 ^ 9"
    by (simp flip: power_add)
  also have "\<dots> \<le> 2 ^ 1015 * 1000"
    by simp
  also have "\<dots> \<le> 2 ^ (k - 1) * 1000"
    using assms by (intro mult_right_mono power_increasing) simp_all
  finally have "\<not> (2::nat) ^ (k - 1) * 1000 < 2 ^ 1024"
    by simp
  then show ?thesis
    using assms True by (simp add: calculateBackoff_def pow2_def)
next
  case False
  then show ?thesis
    using assms by (simp add: calculateBackoff_def pow2_def)
qed

lemma calculateBackoff_cases:
  assumes "1 \<le> k"
  shows "calculateBackoff k = (if k \<le> 1015 then Finite (2 ^ (k - 1) * 1000) else Infinity)"
  using assms calculateBackoff_exact[of k] calculateBackoff_overflow[of k] by simp

lemma sleeps_refused:
  assumes "1 \<le> n"
  shows "sleeps (retry_trace 0 n)
      = map (\<lambda>k. if k \<le> 1015 then Finite (2 ^ (k - 1) * 1000) else Infinity) [1..<n]"
proof -
  have "sleeps (retry_trace 0 n) = map calculateBackoff [Suc 0..<n]"
    using assms by (intro sleeps_retry_trace) simp
  also have "\<dots> = map (\<lambda>k. if k \<le> 1015 then Finite (2 ^ (k - 1) * 1000) else Infinity)
      [Suc 0..<n]"
    by (rule map_cong) (simp_all add: calculateBackoff_cases)
  finally show ?thesis
    by simp
qed

subsection \<open>A transport that rejects every attempt\<close>

lemma refused_trace:
  assumes "1 \<le> n" "retries options = int n" "\<forall>k. fetch k = Rejects (cause k)"
  shows "postCloudEvent parse fetch options =
      (Inl (classify_thrown (timeout options) (cause n)), retry_trace 0 n)"
proof -
  have once: "attempt_once parse (timeout options) (fetch j) =
      Inl (classify_thrown (timeout options) (cause j))" for j
    using assms(3) by (simp add: attempt_once_def)
  have "postCloudEvent parse fetch options =
      (attempt_once parse (timeout options) (fetch n), retry_trace 0 n)"
  proof (rule post_stops)
    show "1 \<le> n" by (rule assms(1))
    show "int n \<le> retries options" using assms(2) by simp
    show "\<forall>j. 1 \<le> j \<and> j < n \<longrightarrow>
           (\<exists>e. attempt_once parse (timeout options) (fetch j) = Inl e \<and> isRetryableError e)"
      by (simp add: once classify_retryable)
    show "case attempt_once parse (timeout options) (fetch n) of
           Inr d \<Rightarrow> True
         | Inl e \<Rightarrow> \<not> isRetryableError e \<or> retries options \<le> int n"
      using assms(2) by (simp add: once)
  qed
  then show ?thesis
    by (simp add: once)
qed

text \<open>
  Claim C3, as the code has it. With \<open>n\<close> attempts configured, \<open>n\<close> at least 1, and a
  transport that rejects every attempt, \<open>postCloudEvent\<close> calls the transport \<open>n\<close>
  times and throws the error of the last attempt: a \<open>NetworkError\<close> with the last
  rejection as its cause, or a \<open>TimeoutError\<close> when that rejection was the abort of the
  timeout. Between attempt \<open>k\<close> and the next it calls \<open>sleep\<close> with the delay
  \<open>2 ^ (k - 1) * 1000\<close> milliseconds as long as \<open>k\<close> is at most 1015; from attempt 1016
  on the delay computed in double precision is \<open>Infinity\<close>.
\<close>

theorem refused_every_attempt:
  assumes "1 \<le> n" "retries options = int n" "\<forall>k. fetch k = Rejects (cause k)"
  shows "\<exists>e effects. postCloudEvent parse fetch options = (Inl e, effects)
           \<and> effects = retry_trace 0 n
           \<and> fetch_count effects = n
           \<and> sleeps effects
               = map (\<lambda>k. if k \<le> 1015 then Finite (2 ^ (k - 1) * 1000) else Infinity) [1..<n]
           \<and> e = classify_thrown (timeout options) (cause n)
           \<and> (e = NetworkError (Some (cause n)) \<or> e = TimeoutError (timeout options))"
proof -
  have "postCloudEvent parse fetch options =
      (Inl (classify_thrown (timeout options) (cause n)), retry_trace 0 n)"
    using assms by (rule refused_trace)
  moreover have "fetch_count (retry_trace 0 n) = n"
    using assms(1) by (simp add: fetch_count_retry_trace)
  moreover note sleeps_refused[OF assms(1)]
  ultimately show ?thesis
    using classify_cases[of "timeout options" "cause n"] by simp
qed

theorem refused_every_attempt_witness:
  "(1::nat) \<le> 4
   \<and> retries \<lparr> timeout = 5000, retries = 4 \<rparr> = int 4
   \<and> (\<forall>k. always_refused k = Rejects (ErrorObject ''TypeError'' ''Failed to fetch''))
   \<and> postCloudEvent (parse_only ''reply'' JNull) always_refused \<lparr> timeout = 5000, retries = 4 \<rparr>
       = (Inl (NetworkError (Some (ErrorObject ''TypeError'' ''Failed to fetch''))),
          [Fetch 1, Sleep (Finite 1000), Fetch 2, Sleep (Finite 2000), Fetch 3,
           Sleep (Finite 4000), Fetch 4])"
proof -
  have trace: "retry_trace 0 4 = [Fetch 1, Sleep (Finite 1000), Fetch 2, Sleep (Finite 2000),
      Fetch 3, Sleep (Finite 4000), Fetch 4]"
    by (simp add: retry_trace_def upt_rec calculateBackoff_exact)
  show ?thesis
    using refused_every_attempt[of 4 "\<lparr> timeout = 5000, retries = 4 \<rparr>" always_refused
        "\<lambda>k. ErrorObject ''TypeError'' ''Failed to fetch''" "parse_only ''reply'' JNull"]
    by (simp add: always_refused_def trace)
qed

text \<open>
  Against claim C3 as stated: with 1017 attempts configured and every attempt refused,
  the transport is called 1017 times, and the delay handed to \<open>sleep\<close> between attempt
  1016 and attempt 1017 is \<open>Infinity\<close>, not \<open>2 ^ 1015 * 1000\<close>.
\<close>

theorem backoff_overflow_counterexample:
  "fetch_count (snd (postCloudEvent (parse_only ''reply'' JNull) always_refused
       \<lparr> timeout = 5000, retries = 1017 \<rparr>)) = 1017
   \<and> sleeps (snd (postCloudEvent (parse_only ''reply'' JNull) always_refused
       \<lparr> timeout = 5000, retries = 1017 \<rparr>)) ! 1015 = Infinity
   \<and> Infinity \<noteq> Finite (2 ^ 1015 * 1000)"
proof -
  let ?options = "\<lparr> timeout = 5000, retries = 1017 \<rparr>"
  have "postCloudEvent (parse_only ''reply'' JNull) always_refused ?options =
      (Inl (classify_thrown (timeout ?options) (ErrorObject ''TypeError'' ''Failed to fetch'')),
       retry_trace 0 1017)"
    by (rule refused_trace) (simp_all add: always_refused_def)
  then have effects: "snd (postCloudEvent (parse_only ''reply'' JNull) always_refused ?options)
      = retry_trace 0 1017"
    by (simp only: snd_conv)
  have count: "fetch_count (retry_trace 0 1017) = 1017 - 0"
    by (rule fetch_count_retry_trace) simp
  have "sleeps (retry_trace 0 1017) = map calculateBackoff [Suc 0..<1017]"
    by (rule sleeps_retry_trace) simp
  moreover have "map calculateBackoff [Suc 0..<1017] ! 1015 = calculateBackoff (Suc 0 + 1015)"
    by (rule nth_map_upt) simp
  moreover have "calculateBackoff (Suc 0 + 1015) = Infinity"
    by (rule calculateBackoff_overflow) simp
  ultimately have "sleeps (retry_trace 0 1017) ! 1015 = Infinity"
    by (simp only:)
  with count show ?thesis
    unfolding effects by simp
qed

subsection \<open>Errors that end the call\<close>

lemma never_retried:
  "(\<exists>s t b. e = HTTPError s t b) \<or> (\<exists>c. e = ParseError c) \<or> (\<exists>c s. e = QBError c s)
     \<Longrightarrow> \<not> isRetryableError e"
  by auto

lemma last_retry_trace: "last (retry_trace a k) = Fetch k"
  by (simp add: retry_trace_def)

lemma attempt_once_not_ok:
  "\<not> ok r \<Longrightarrow> text_body r = Inr body \<Longrightarrow>
     attempt_once parse t (Resolves r) = Inl (HTTPError (response.status r) (statusText r) body)"
  by (simp add: attempt_once_def)

lemma attempt_once_unreadable:
  "text_body r = Inl c \<Longrightarrow> attempt_once parse t (Resolves r) = Inl (classify_thrown t c)"
  by (simp add: attempt_once_def)

text \<open>
  Claim C4, as the code has it. When attempt \<open>k\<close> is reached and ends in an
  \<open>HTTPError\<close>, a \<open>ParseError\<close> or a \<open>QBError\<close>, that error is thrown and \<open>k\<close> was the
  last call of the transport, however many attempts are configured. A response with
  status 404 to the first attempt, whose body can be read, gives one call of the
  transport and an \<open>HTTPError\<close> with status 404.
\<close>

theorem rejection_is_final:
  "(1 \<le> k \<and> int k \<le> retries options
      \<and> (\<forall>j. 1 \<le> j \<and> j < k \<longrightarrow>
            (\<exists>e'. attempt_once parse (timeout options) (fetch j) = Inl e' \<and> isRetryableError e'))
      \<and> attempt_once parse (timeout options) (fetch k) = Inl e
      \<and> ((\<exists>s t b. e = HTTPError s t b) \<or> (\<exists>c. e = ParseError c) \<or> (\<exists>c s. e = QBError c s))
    \<longrightarrow> postCloudEvent parse fetch options = (Inl e, retry_trace 0 k)
        \<and> fetch_count (retry_trace 0 k) = k
        \<and> last (retry_trace 0 k) = Fetch k)
   \<and> (1 \<le> retries options \<and> fetch 1 = Resolves r \<and> response.status r = 404
        \<and> text_body r = Inr body
    \<longrightarrow> postCloudEvent parse fetch options
          = (Inl (HTTPError 404 (statusText r) body), [Fetch 1]))"
proof (intro conjI impI)
  assume a: "1 \<le> k \<and> int k \<le> retries options
      \<and> (\<forall>j. 1 \<le> j \<and> j < k \<longrightarrow>
            (\<exists>e'. attempt_once parse (timeout options) (fetch j) = Inl e' \<and> isRetryableError e'))
      \<and> attempt_once parse (timeout options) (fetch k) = Inl e
      \<and> ((\<exists>s t b. e = HTTPError s t b) \<or> (\<exists>c. e = ParseError c) \<or> (\<exists>c s. e = QBError c s))"
  then have "\<not> isRetryableError e"
    using never_retried[of e] by blast
  with a have "postCloudEvent parse fetch options =
      (attempt_once parse (timeout options) (fetch k), retry_trace 0 k)"
    by (intro post_stops) simp_all
  with a show "postCloudEvent parse fetch options = (Inl e, retry_trace 0 k)"
    by simp
  from a show "fetch_count (retry_trace 0 k) = k"
    by (simp add: fetch_count_retry_trace)
  show "last (retry_trace 0 k) = Fetch k"
    by (rule last_retry_trace)
next
  assume a: "1 \<le> retries options \<and> fetch 1 = Resolves r \<and> response.status r = 404
      \<and> text_body r = Inr body"
  then have "attempt_once parse (timeout options) (fetch 1)
      = Inl (HTTPError 404 (statusText r) body)"
    using attempt_once_not_ok[of r body parse "timeout options"] by (simp add: ok_def)
  with a show "postCloudEvent parse fetch options
          = (Inl (HTTPError 404 (statusText r) body), [Fetch 1])"
    by (intro post_first_attempt) simp_all
qed

theorem rejection_is_final_witness:
  "postCloudEvent (parse_only ''reply'' JNull) (refused_then reply_404) \<lparr> timeout = 5000, retries = 3 \<rparr>
      = (Inl (HTTPError 404 ''Not Found'' ''no such route''),
         [Fetch 1, Sleep (Finite 1000), Fetch 2])
   \<and> (1::int) \<le> retries default_options
   \<and> always_answers reply_404 1 = Resolves reply_404
   \<and> response.status reply_404 = 404
   \<and> text_body reply_404 = Inr ''no such route''
   \<and> postCloudEvent (parse_only ''reply'' JNull) (always_answers reply_404) default_options
      = (Inl (HTTPError 404 ''Not Found'' ''no such route''), [Fetch 1])"
proof -
  let ?p = "parse_only ''reply'' JNull"
  have first: "\<forall>j. 1 \<le> j \<and> j < (2::nat) \<longrightarrow>
      (\<exists>e'. attempt_once ?p 5000 (refused_then reply_404 j) = Inl e' \<and> isRetryableError e')"
  proof (intro allI impI)
    fix j :: nat
    assume "1 \<le> j \<and> j < 2"
    then have "j = 1" by simp
    then show "\<exists>e'. attempt_once ?p 5000 (refused_then reply_404 j) = Inl e' \<and> isRetryableError e'"
      by (simp add: attempt_once_def refused_then_def)
  qed
  have second: "attempt_once ?p 5000 (refused_then reply_404 2)
      = Inl (HTTPError 404 ''Not Found'' ''no such route'')"
    by (simp add: attempt_once_def refused_then_def reply_404_def ok_def)
  have trace: "retry_trace 0 2 = [Fetch 1, Sleep (Finite 1000), Fetch 2]"
    by (simp add: retry_trace_def upt_rec calculateBackoff_exact)
  show ?thesis
    using first second
      rejection_is_final[of 2 "\<lparr> timeout = 5000, retries = 3 \<rparr>" ?p "refused_then reply_404"
        "HTTPError 404 ''Not Found'' ''no such route''" reply_404 "''no such route''"]
      rejection_is_final[of 1 default_options ?p "always_answers reply_404"
        "HTTPError 404 ''Not Found'' ''no such route''" reply_404 "''no such route''"]
    by (simp add: default_options_def always_answers_def reply_404_def trace)
qed

text \<open>
  Against claim C4 as stated: a response with status 404 whose body cannot be read is no
  \<open>HTTPError\<close>. The failed read is a \<open>NetworkError\<close>, the attempt is repeated, and with
  two attempts configured the transport is called twice.
\<close>

theorem unreadable_404_counterexample:
  "response.status broken_404 = 404
   \<and> postCloudEvent (parse_only ''reply'' JNull) (always_answers broken_404)
        \<lparr> timeout = 5000, retries = 2 \<rparr>
      = (Inl (NetworkError (Some (ErrorObject ''TypeError'' ''network error''))),
         [Fetch 1, Sleep (Finite 1000), Fetch 2])"
proof -
  let ?p = "parse_only ''reply'' JNull"
  let ?options = "\<lparr> timeout = 5000, retries = 2 \<rparr>"
  have status: "response.status broken_404 = 404"
    by (simp add: broken_404_def)
  have once: "attempt_once ?p 5000 (always_answers broken_404 j)
      = Inl (NetworkError (Some (ErrorObject ''TypeError'' ''network error'')))" for j
    by (simp add: always_answers_def attempt_once_unreadable broken_404_def)
  have "postCloudEvent ?p (always_answers broken_404) ?options =
      (attempt_once ?p (timeout ?options) (always_answers broken_404 2), retry_trace 0 2)"
  proof (rule post_stops)
    show "(1::nat) \<le> 2" by simp
    show "int 2 \<le> retries ?options" by simp
    show "\<forall>j. 1 \<le> j \<and> j < 2 \<longrightarrow>
        (\<exists>e. attempt_once ?p (timeout ?options) (always_answers broken_404 j) = Inl e
           \<and> isRetryableError e)"
      by (simp add: once)
    show "case attempt_once ?p (timeout ?options) (always_answers broken_404 2) of
        Inr d \<Rightarrow> True
      | Inl e \<Rightarrow> \<not> isRetryableError e \<or> retries ?options \<le> int 2"
      by (simp add: once)
  qed
  moreover have "retry_trace 0 2 = [Fetch 1, Sleep (Finite 1000), Fetch 2]"
    by (simp add: retry_trace_def upt_rec calculateBackoff_exact)
  ultimately show ?thesis
    using status by (simp add: once)
qed

subsection \<open>Errors reported by QuickBooks\<close>










section \<open>Properties of the persistent store\<close>

lemma current_store_set: "current (store_set v c) = v"
  by (auto simp: store_set_def safe_not_equal_def sync_subscriber_def Let_def)

lemma writes_store_set_initializing:
  "isInitializing c \<Longrightarrow> writes (store_set v c) = writes c"
  by (simp add: store_set_def sync_subscriber_def Let_def)

lemma isInitializing_store_set: "isInitializing (store_set v c) = isInitializing c"
  by (simp add: store_set_def sync_subscriber_def Let_def)

lemma key_store_set: "key (store_set v c) = key c"
  by (simp add: store_set_def sync_subscriber_def Let_def)

lemma created:
  "persistentStore True k init st =
     \<lparr> key = k, storageType = st, current = init, isInitializing = True, attached = True,
       writes = [] \<rparr>"
  by (simp add: persistentStore_def sync_subscriber_def)

text \<open>
  Claim C9. When the listener receives a change of the cell's key in the cell's storage
  area, the value of the cell becomes the new value of the notification, and the listener
  makes no call of \<open>storage.set\<close>: the writes are those made before.
\<close>

theorem notification_sets_value_without_write:
  assumes "areaName = area_name (storageType c)"
    and "changes (key c) = Some (oldValue, newValue)"
  shows "current (onChanged changes areaName c) = newValue
           \<and> writes (onChanged changes areaName c) = writes c"
  using assms
  by (simp add: onChanged_def current_store_set writes_store_set_initializing)

theorem notification_sets_value_without_write_witness:
  "''local'' = area_name (storageType (persistentStore True ''vendors'' (JArr []) local))
   \<and> [''vendors'' \<mapsto> (JArr [], JArr [JStr ''Acme Corp''])]
        (key (persistentStore True ''vendors'' (JArr []) local))
       = Some (JArr [], JArr [JStr ''Acme Corp''])
   \<and> current (onChanged [''vendors'' \<mapsto> (JArr [], JArr [JStr ''Acme Corp''])] ''local''
        (persistentStore True ''vendors'' (JArr []) local)) = JArr [JStr ''Acme Corp'']
   \<and> writes (onChanged [''vendors'' \<mapsto> (JArr [], JArr [JStr ''Acme Corp''])] ''local''
        (persistentStore True ''vendors'' (JArr []) local)) = []"
  using notification_sets_value_without_write[of "''local''"
      "persistentStore True ''vendors'' (JArr []) local"
      "[''vendors'' \<mapsto> (JArr [], JArr [JStr ''Acme Corp''])]" "JArr []" "JArr [JStr ''Acme Corp'']"]
  by (simp add: created)

lemma current_hydrate:
  "current (hydrate stored c) = (if stored = JUndefined then current c else stored)"
  by (simp add: hydrate_def Let_def current_store_set)

text \<open>
  Claim C8, as the code has it. In whatever state the cell is when a value is set before
  the read of the storage completes, the read that completes with a record for the key
  replaces the value set locally by the record; the value set locally remains only when
  the storage has no record for the key. The same holds of whatever value the cell has
  come to hold when the read completes.
\<close>

theorem hydration_after_local_set:
  "current (hydrate stored (store_set v c)) = (if stored = JUndefined then v else stored)
   \<and> current (hydrate stored c) = (if stored = JUndefined then current c else stored)"
  by (simp add: current_hydrate current_store_set)

theorem hydration_after_local_set_witness:
  "current (hydrate (JStr ''stored'') (store_set (JStr ''local'')
       (persistentStore True ''backend-url'' (JStr ''initial'') sync))) = JStr ''stored''
   \<and> current (hydrate JUndefined (store_set (JStr ''local'')
       (persistentStore True ''backend-url'' (JStr ''initial'') sync))) = JStr ''local''
   \<and> current (hydrate (JStr ''stored'') (store_set (JStr ''local'')
       (onChanged [''backend-url'' \<mapsto> (JUndefined, JStr ''remote'')] ''sync''
         (persistentStore True ''backend-url'' (JStr ''initial'') sync)))) = JStr ''stored''"
  using hydration_after_local_set[of "JStr ''stored''" "JStr ''local''"
      "persistentStore True ''backend-url'' (JStr ''initial'') sync"]
    hydration_after_local_set[of JUndefined "JStr ''local''"
      "persistentStore True ''backend-url'' (JStr ''initial'') sync"]
    hydration_after_local_set[of "JStr ''stored''" "JStr ''local''"
      "onChanged [''backend-url'' \<mapsto> (JUndefined, JStr ''remote'')] ''sync''
         (persistentStore True ''backend-url'' (JStr ''initial'') sync)"]
  by simp

text \<open>
  Against claim C8 as stated: a cell created with \<open>"initial"\<close> and set to \<open>"local"\<close>
  before the read completes holds \<open>"stored"\<close>, not \<open>"local"\<close>, once the read has
  completed with the record \<open>"stored"\<close>.
\<close>

theorem hydration_overwrites_counterexample:
  "current (hydrate (JStr ''stored'') (store_set (JStr ''local'')
       (persistentStore True ''backend-url'' (JStr ''initial'') sync))) = JStr ''stored''
   \<and> current (hydrate (JStr ''stored'') (store_set (JStr ''local'')
       (persistentStore True ''backend-url'' (JStr ''initial'') sync))) \<noteq> JStr ''local''"
  by (simp add: created hydrate_def store_set_def safe_not_equal_def sync_subscriber_def Let_def)


section \<open>Properties of the quota monitor\<close>

subsection \<open>Cleanup in general\<close>

lemma avg_positive:
  assumes "0 < n"
  shows "\<exists>a. avgBytesPerBill bytes n = Some a \<and> 0 < a"
proof -
  define c where "c = \<lceil>(of_nat bytes :: rat) / of_nat n\<rceil>"
  have "0 \<le> (of_nat bytes :: rat) / of_nat n"
    by simp
  then have "(0::rat) \<le> of_int c"
    unfolding c_def using le_of_int_ceiling[of "(of_nat bytes :: rat) / of_nat n"] by linarith
  then have "0 \<le> c"
    by simp
  moreover have "avgBytesPerBill bytes n = (if c = 0 then Some 500 else Some (of_int c))"
    using assms by (simp add: avgBytesPerBill_def Let_def c_def)
  ultimately show ?thesis
    by (cases "c = 0") simp_all
qed

lemma ceil_div_positive:
  assumes "0 < bytesToFree" "0 < n"
  shows "1 \<le> ceil_div bytesToFree (avgBytesPerBill bytes n)"
proof -
  obtain a where a: "avgBytesPerBill bytes n = Some a" "0 < a"
    using avg_positive[OF assms(2)] by blast
  then have "0 < bytesToFree / a"
    using assms(1) by simp
  then have "0 < \<lceil>bytesToFree / a\<rceil>"
    by (simp add: ceiling_less_iff)
  then show ?thesis
    using a by (simp add: ceil_div_def)
qed

lemma count_small: "length bills \<le> 10 \<Longrightarrow> 0 < bytesToFree \<Longrightarrow> count_to_remove q bytesToFree bills = 0"
proof -
  assume a: "length bills \<le> 10" "0 < bytesToFree"
  show ?thesis
  proof (cases "length bills = 0")
    case True
    have "0 \<le> \<lceil>bytesToFree / 500\<rceil>"
      using a(2) by (simp add: zero_le_ceiling)
    with True show ?thesis
      by (simp add: count_to_remove_def Let_def avgBytesPerBill_def ceil_div_def)
  next
    case False
    then have "1 \<le> ceil_div bytesToFree (avgBytesPerBill (bytesInUse q) (length bills))"
      using a(2) by (intro ceil_div_positive) simp_all
    then show ?thesis
      using a(1) by (simp add: count_to_remove_def Let_def)
  qed
qed

lemma count_large:
  assumes "10 < length bills" "0 < bytesToFree"
  shows "1 \<le> count_to_remove q bytesToFree bills
           \<and> count_to_remove q bytesToFree bills \<le> int (length bills) - 10"
proof -
  have "1 \<le> ceil_div bytesToFree (avgBytesPerBill (bytesInUse q) (length bills))"
    using assms by (intro ceil_div_positive) auto
  then show ?thesis
    using assms(1) by (simp add: count_to_remove_def Let_def)
qed

lemma sorted_drop_key: "sorted (map f xs) \<Longrightarrow> sorted (map f (drop n xs))"
  by (simp add: drop_map[symmetric] sorted_wrt_drop)

lemma renotified_sorted:
  assumes "0 < bytesToFree" "sorted (map createdAt bills)" "10 \<le> length bills"
    and "billCache s = bills"
  shows "renotified q bytesToFree bills s =
           \<lparr> billCache = drop (length bills - 10) bills,
             billsToRemove = 0,
             promise = (case promise s of
                          None \<Rightarrow> Some (count_to_remove q bytesToFree bills)
                        | Some r \<Rightarrow> Some r) \<rparr>"
  using assms
proof (induction "length bills" arbitrary: bills s rule: less_induct)
  case less
  let ?n = "count_to_remove q bytesToFree bills"
  show ?case
  proof (cases "10 < length bills")
    case False
    with less.prems have len: "length bills = 10"
      by simp
    then have "?n = 0"
      using less.prems(1) by (simp add: count_small)
    then show ?thesis
      using len less.prems(4)
      by (subst renotified.simps) (simp add: Let_def resolve_def split: option.splits)
  next
    case True
    then have n: "1 \<le> ?n" "?n \<le> int (length bills) - 10"
      using count_large[of bills bytesToFree q] less.prems(1) by simp_all
    define keep where "keep = drop (nat ?n) bills"
    define s3 where "s3 = resolve ?n (s \<lparr> billsToRemove := ?n, billCache := keep \<rparr>)"
    have step: "renotified q bytesToFree bills s = renotified q bytesToFree keep s3"
      using n less.prems(2)
      by (subst renotified.simps) (simp add: Let_def sort_key_id_if_sorted keep_def s3_def)
    have shorter: "length keep < length bills" "10 \<le> length keep"
      using n by (simp_all add: keep_def)
    have "sorted (map createdAt keep)"
      unfolding keep_def using less.prems(2) by (rule sorted_drop_key)
    moreover have "billCache s3 = keep"
      by (simp add: s3_def resolve_def split: option.splits)
    ultimately have ih: "renotified q bytesToFree keep s3 =
        \<lparr> billCache = drop (length keep - 10) keep, billsToRemove = 0,
          promise = (case promise s3 of
                       None \<Rightarrow> Some (count_to_remove q bytesToFree keep)
                     | Some r \<Rightarrow> Some r) \<rparr>"
      using less.hyps[of keep s3] shorter less.prems(1) by simp
    have "drop (length keep - 10) keep = drop (length bills - 10) bills"
      using n by (simp add: keep_def)
    moreover have "promise s3 = (case promise s of None \<Rightarrow> Some ?n | Some r \<Rightarrow> Some r)"
      by (simp add: s3_def resolve_def split: option.splits)
    ultimately show ?thesis
      unfolding step ih by (simp split: option.splits)
  qed
qed

lemma subscribed_general:
  assumes "0 < bytesToFree"
  shows "subscribed q bytesToFree bills \<lparr> billCache = bills, billsToRemove = 0, promise = None \<rparr> =
     (if length bills \<le> 10
      then \<lparr> billCache = bills, billsToRemove = 0, promise = Some 0 \<rparr>
      else \<lparr> billCache = drop (length bills - 10) (sort_key createdAt bills),
             billsToRemove = 0,
             promise = Some (count_to_remove q bytesToFree
                (drop (nat (count_to_remove q bytesToFree bills)) (sort_key createdAt bills))) \<rparr>)"
proof (cases "length bills \<le> 10")
  case True
  then show ?thesis
    using assms by (simp add: subscribed_def count_small Let_def resolve_def)
next
  case False
  let ?n = "count_to_remove q bytesToFree bills"
  let ?keep = "drop (nat ?n) (sort_key createdAt bills)"
  from False have n: "1 \<le> ?n" "?n \<le> int (length bills) - 10"
    using count_large[of bills bytesToFree q] assms by simp_all
  have "sorted (map createdAt ?keep)"
    by (intro sorted_drop_key) simp
  moreover have "10 \<le> length ?keep"
    using n by simp
  ultimately have "renotified q bytesToFree ?keep
        \<lparr> billCache = ?keep, billsToRemove = ?n, promise = None \<rparr>
      = \<lparr> billCache = drop (length ?keep - 10) ?keep, billsToRemove = 0,
          promise = Some (count_to_remove q bytesToFree ?keep) \<rparr>"
    using renotified_sorted[of bytesToFree ?keep
        "\<lparr> billCache = ?keep, billsToRemove = ?n, promise = None \<rparr>" q] assms
    by simp
  moreover have "drop (length ?keep - 10) ?keep = drop (length bills - 10) (sort_key createdAt bills)"
    using n by simp
  ultimately show ?thesis
    using False n by (simp add: subscribed_def Let_def resolve_def)
qed

text \<open>
  What \<open>cleanupOldData\<close> does in general. Below or at the target, and with ten bills or
  fewer, nothing is removed and the count is zero. Otherwise every bill but the ten most
  recent is removed, and the count is the one that the second run of the subscriber
  computes, on the list that the first run has stored.
\<close>

lemma cleanupOldData_general:
  "cleanupOldData (BytesInUse b) targetPercentage bills =
     (let q = \<lparr> bytesInUse = b, quota = QUOTA_LIMITS_local,
                 percentUsed = (of_nat b / of_nat QUOTA_LIMITS_local) * 100,
                 status = (if (of_nat b / of_nat QUOTA_LIMITS_local) * 100 \<ge> THRESHOLDS_critical
                           then Critical
                           else if (of_nat b / of_nat QUOTA_LIMITS_local) * 100 \<ge> THRESHOLDS_warning
                           then Warning else Ok) \<rparr>;
          bytesToFree = of_nat b - (targetPercentage / 100) * of_nat QUOTA_LIMITS_local
      in if percentUsed q \<le> targetPercentage \<or> length bills \<le> 10 then Inr (Some 0, bills)
         else Inr (Some (count_to_remove q bytesToFree
                      (drop (nat (count_to_remove q bytesToFree bills)) (sort_key createdAt bills))),
                   drop (length bills - 10) (sort_key createdAt bills)))"
proof -
  let ?p = "(of_nat b / of_nat QUOTA_LIMITS_local) * (100::rat)"
  let ?btf = "of_nat b - (targetPercentage / 100) * of_nat QUOTA_LIMITS_local"
  have pos: "0 < ?btf" if "\<not> ?p \<le> targetPercentage"
  proof -
    have "targetPercentage * of_nat QUOTA_LIMITS_local < of_nat b * 100"
      using that by (simp add: QUOTA_LIMITS_local_def field_simps)
    then show ?thesis
      by (simp add: field_simps)
  qed
  show ?thesis
  proof (cases "?p \<le> targetPercentage")
    case True
    then show ?thesis
      by (simp add: cleanupOldData_def checkStorageQuota_def Let_def)
  next
    case False
    then show ?thesis
      using subscribed_general[OF pos[OF False], of _ bills]
      by (simp add: cleanupOldData_def checkStorageQuota_def Let_def)
  qed
qed

subsection \<open>Cleanup of thirteen bills\<close>

lemma sorted_bills: "sort_key createdAt (bills_from a) = bills_from a"
proof -
  have "map createdAt (bills_from a) = map of_nat [a..<17]"
    by (simp add: bill_at_def bills_from_def)
  moreover have "sorted (map (of_nat :: nat \<Rightarrow> rat) [a..<17])"
    by (simp add: sorted_map sorted_wrt_iff_nth_less)
  ultimately have "sorted (map createdAt (bills_from a))"
    by simp
  then show ?thesis
    by (rule sort_key_id_if_sorted)
qed

lemma length_bills: "length (bills_from a) = 17 - a"
  by (simp add: bills_from_def)

lemma drop_bills: "drop n (bills_from a) = bills_from (a + n)"
  by (simp add: bills_from_def drop_map)

lemma count_bills:
  "count_to_remove q b (bills_from a) =
     min (max 0 (int (17 - a) - 10)) (ceil_div b (avgBytesPerBill (bytesInUse q) (17 - a)))"
  by (simp add: count_to_remove_def sorted_bills length_bills Let_def)

lemma check80: "checkStorageQuota (BytesInUse 4194304) = Inr q80"
  by (simp add: checkStorageQuota_def q80_def QUOTA_LIMITS_local_def THRESHOLDS_critical_def
      THRESHOLDS_warning_def)

lemma ceil13: "\<lceil>(of_nat 4194304 :: rat) / of_nat 13\<rceil> = 322639"
  by (simp add: ceiling_eq_iff)

lemma ceil11: "\<lceil>(of_nat 4194304 :: rat) / of_nat 11\<rceil> = 381301"
  by (simp add: ceiling_eq_iff)

lemma ceil10: "\<lceil>(of_nat 4194304 :: rat) / of_nat 10\<rceil> = 419431"
  by (simp add: ceiling_eq_iff)

lemma avg10: "avgBytesPerBill 4194304 10 = Some 419431"
  unfolding avgBytesPerBill_def Let_def ceil10 by simp

lemma avg13: "avgBytesPerBill 4194304 13 = Some 322639"
  unfolding avgBytesPerBill_def Let_def ceil13 by simp

lemma avg11: "avgBytesPerBill 4194304 11 = Some 381301"
  unfolding avgBytesPerBill_def Let_def ceil11 by simp

lemma by_bytes:
  "ceil_div 524288 (Some 322639) = 2"
  "ceil_div 524288 (Some 381301) = 2"
  "ceil_div 524288 (Some 419431) = 2"
  by (simp_all add: ceil_div_def ceiling_eq_iff)

lemma counts80:
  "count_to_remove q80 524288 (bills_from 4) = 2"
  "count_to_remove q80 524288 (bills_from 6) = 1"
  "count_to_remove q80 524288 (bills_from 7) = 0"
    apply (simp add: count_bills q80_def avg13 by_bytes)
   apply (simp add: count_bills q80_def avg11 by_bytes)
  apply (simp add: count_bills q80_def avg10 by_bytes)
  done

lemma renotified_step:
  "count_to_remove q b (bills_from a) = n \<Longrightarrow> 0 < n \<Longrightarrow>
     renotified q b (bills_from a) s
       = renotified q b (bills_from (a + nat n))
           (resolve n (s \<lparr> billsToRemove := n, billCache := bills_from (a + nat n) \<rparr>))"
  by (subst renotified.simps) (simp add: Let_def sorted_bills drop_bills)

lemma renotified_stop:
  "count_to_remove q b bills = n \<Longrightarrow> \<not> 0 < n \<Longrightarrow>
     renotified q b bills s = resolve n (s \<lparr> billsToRemove := n \<rparr>)"
  by (subst renotified.simps) (simp add: Let_def)

lemma second_round:
  "renotified q80 524288 (bills_from 6)
      \<lparr> billCache = bills_from 6, billsToRemove = 2, promise = None \<rparr>
    = \<lparr> billCache = bills_from 7, billsToRemove = 0, promise = Some 1 \<rparr>"
proof -
  have "renotified q80 524288 (bills_from 6)
      \<lparr> billCache = bills_from 6, billsToRemove = 2, promise = None \<rparr>
    = renotified q80 524288 (bills_from 7)
      \<lparr> billCache = bills_from 7, billsToRemove = 1, promise = Some 1 \<rparr>"
    using renotified_step[OF counts80(2)] by (simp add: resolve_def)
  also have "\<dots> = \<lparr> billCache = bills_from 7, billsToRemove = 0, promise = Some 1 \<rparr>"
    using renotified_stop[OF counts80(3)] by (simp add: resolve_def)
  finally show ?thesis .
qed

lemma first_round:
  "subscribed q80 524288 (bills_from 4)
      \<lparr> billCache = bills_from 4, billsToRemove = 0, promise = None \<rparr>
    = \<lparr> billCache = bills_from 7, billsToRemove = 0, promise = Some 1 \<rparr>"
  by (simp add: subscribed_def counts80(1) Let_def sorted_bills drop_bills second_round resolve_def)

text \<open>
  Claim C7 at thirteen bills and 80 percent in use, with the target of 70 percent. One run
  of the subscriber would remove and report two bills. The call removes three, leaving
  the ten most recent, and its promise is fulfilled with one: the subscriber runs again
  on every list it stores, and the first \<open>resolve\<close> to be reached is that of the second
  run.
\<close>

theorem cleanup_cascades:
  "cleanupOldData (BytesInUse 4194304) 70 (bills_from 4) = Inr (Some 1, bills_from 7)
   \<and> single_pass_count (BytesInUse 4194304) 70 (bills_from 4) = 2
   \<and> length (bills_from 4) = 13 \<and> length (bills_from 7) = 10"
proof -
  have b: "rat_of_nat (bytesInUse q80) - 7 * rat_of_nat (quota q80) / 10 = 524288"
    by (simp add: q80_def)
  have p: "\<not> percentUsed q80 \<le> 70"
    by (simp add: q80_def)
  have "cleanupOldData (BytesInUse 4194304) 70 (bills_from 4) = Inr (Some 1, bills_from 7)"
    using p by (simp add: cleanupOldData_def check80 b first_round Let_def)
  moreover have "single_pass_count (BytesInUse 4194304) 70 (bills_from 4) = 2"
    using p by (simp add: single_pass_count_def check80 b counts80(1))
  ultimately show ?thesis
    by (simp add: length_bills)
qed

subsection \<open>Bands\<close>

text \<open>The bands that \<open>checkStorageQuota\<close> reports: ok below 90, warning from 90, critical from 95.\<close>

lemma checkStorageQuota_bands:
  "checkStorageQuota (BytesInUse b) =
     Inr \<lparr> bytesInUse = b, quota = 5242880,
           percentUsed = (of_nat b / 5242880) * 100,
           status = (if (of_nat b / 5242880) * 100 \<ge> (95 :: rat) then Critical
                     else if (of_nat b / 5242880) * 100 \<ge> (90 :: rat) then Warning
                     else Ok) \<rparr>"
  by (simp add: checkStorageQuota_def QUOTA_LIMITS_local_def THRESHOLDS_critical_def
      THRESHOLDS_warning_def Let_def)

text \<open>
  Claim C6 at 85 percent in use. The percentage is the bytes in use divided by the limit,
  times 100; the band reported is ok, although 85 lies between \<open>THRESHOLDS.ok\<close> and
  \<open>THRESHOLDS.critical\<close>: the code compares with \<open>THRESHOLDS.warning\<close>, which is 90,
  and never with \<open>THRESHOLDS.ok\<close>.
\<close>

theorem quota_ok_at_85_percent:
  "checkStorageQuota (BytesInUse 4456448)
     = Inr \<lparr> bytesInUse = 4456448, quota = 5242880, percentUsed = 85, status = Ok \<rparr>
   \<and> (of_nat 4456448 / of_nat QUOTA_LIMITS_local) * 100 = (85 :: rat)
   \<and> THRESHOLDS_ok \<le> 85 \<and> 85 < THRESHOLDS_critical"
  by (simp add: checkStorageQuota_def QUOTA_LIMITS_local_def THRESHOLDS_critical_def
      THRESHOLDS_warning_def THRESHOLDS_ok_def)

end
